theory Spec2Isabelle
  imports Main "HOL-Library.Word" "HOL-Library.Sublist"
begin

section \<open>The type-B editor: document lifecycle and autosave\<close>

text \<open>
  A shallow embedding of the root component \<open>Index\<close> of the editor and of the slider
  controls of \<open>ControlPanel\<close>. The component's React state is a record, every event
  handler is a function from state to state, and what React does after a handler (the
  effects whose dependencies changed) is the function \<open>effects\<close>. The environment the
  component talks to is part of the state: \<open>sessionStorage\<close>, the live timeouts of the
  window, the file readers in flight, the clock, and a trace of the calls that leave the
  component (\<open>alert\<close>, \<open>console.warn\<close>, \<open>console.error\<close>, writes and removals of the
  content key, downloads).

  The handlers are those of both revisions of \<open>Index\<close> in the sources; the two agree on
  every handler modelled here, and the later one adds the paste handler and the hotkeys of
  \<open>handleKeyDown\<close>. The revisions differ in one default (\<open>showCountDisplay\<close>, true in
  the earlier one, which is the one taken here). Purely visual state (gear pulse, control
  panel visibility, caret coordinates, Caps Lock, the welcome typing animation) is left
  out.
\<close>

subsection \<open>Strings and sizes\<close>

text \<open>
  A JavaScript string is a sequence of UTF-16 code units; \<open>content.length\<close> is the
  length of that sequence.
\<close>

type_synonym jsstring = "16 word list"

text \<open>A string literal of the source that is ASCII, given by its characters.\<close>

definition js :: "string \<Rightarrow> jsstring" where
  "js cs = map (\<lambda>c. of_nat (of_char c)) cs"

text \<open>
  \<open>new Blob([content]).size\<close>: the number of bytes of the UTF-8 encoding of the string.
  A code unit below \<open>0x80\<close> takes one byte, one below \<open>0x800\<close> two; a high surrogate
  followed by a low surrogate is one code point of four bytes; every other code unit
  takes three (a lone surrogate is replaced by U+FFFD).
\<close>

definition is_high_surrogate :: "16 word \<Rightarrow> bool" where
  "is_high_surrogate u = (0xD800 \<le> u \<and> u \<le> 0xDBFF)"

definition is_low_surrogate :: "16 word \<Rightarrow> bool" where
  "is_low_surrogate u = (0xDC00 \<le> u \<and> u \<le> 0xDFFF)"

definition unit_size :: "16 word \<Rightarrow> nat" where
  "unit_size u = (if u < 0x80 then 1 else if u < 0x800 then 2 else 3)"

fun blob_size :: "jsstring \<Rightarrow> nat" where
  "blob_size [] = 0"
| "blob_size [u] = unit_size u"
| "blob_size (u # v # us) =
     (if is_high_surrogate u \<and> is_low_surrogate v then 4 + blob_size us
      else unit_size u + blob_size (v # us))"

definition MAX_FILE_SIZE :: nat where
  "MAX_FILE_SIZE = 5 * 1024 * 1024"

definition AUTO_SAVE_DELAY :: nat where
  "AUTO_SAVE_DELAY = 3000"

subsection \<open>Settings and the session store\<close>

record EditorSettings =
  fontSize :: int
  isDarkMode :: bool
  showWordCount :: bool
  showCountDisplay :: bool
  currentFilename :: jsstring
  leftMargin :: int
  rightMargin :: int

text \<open>
  The value under the settings key is a JSON object. \<open>JSON.parse\<close> gives an object
  that carries some of the keys of \<open>EditorSettings\<close> (a blob written by an earlier
  revision has no margins); the spread \<open>...parsed\<close> lets every key it carries override
  the default.
\<close>

record settings_json =
  json_fontSize :: "int option"
  json_isDarkMode :: "bool option"
  json_showWordCount :: "bool option"
  json_showCountDisplay :: "bool option"
  json_currentFilename :: "jsstring option"
  json_leftMargin :: "int option"
  json_rightMargin :: "int option"

definition stringify :: "EditorSettings \<Rightarrow> settings_json" where
  "stringify st =
     \<lparr> json_fontSize = Some (fontSize st),
       json_isDarkMode = Some (isDarkMode st),
       json_showWordCount = Some (showWordCount st),
       json_showCountDisplay = Some (showCountDisplay st),
       json_currentFilename = Some (currentFilename st),
       json_leftMargin = Some (leftMargin st),
       json_rightMargin = Some (rightMargin st) \<rparr>"

definition default_settings :: EditorSettings where
  "default_settings =
     \<lparr> fontSize = 16, isDarkMode = True, showWordCount = True, showCountDisplay = True,
       currentFilename = js ''document.txt'', leftMargin = 72, rightMargin = 72 \<rparr>"

definition spread :: "EditorSettings \<Rightarrow> settings_json \<Rightarrow> EditorSettings" where
  "spread d p =
     \<lparr> fontSize = (case json_fontSize p of None \<Rightarrow> fontSize d | Some v \<Rightarrow> v),
       isDarkMode = (case json_isDarkMode p of None \<Rightarrow> isDarkMode d | Some v \<Rightarrow> v),
       showWordCount = (case json_showWordCount p of None \<Rightarrow> showWordCount d | Some v \<Rightarrow> v),
       showCountDisplay =
         (case json_showCountDisplay p of None \<Rightarrow> showCountDisplay d | Some v \<Rightarrow> v),
       currentFilename =
         (case json_currentFilename p of None \<Rightarrow> currentFilename d | Some v \<Rightarrow> v),
       leftMargin = (case json_leftMargin p of None \<Rightarrow> leftMargin d | Some v \<Rightarrow> v),
       rightMargin = (case json_rightMargin p of None \<Rightarrow> rightMargin d | Some v \<Rightarrow> v) \<rparr>"

text \<open>
  \<open>sessionStorage\<close>, with one slot for each of the two keys the component uses:
  \<open>STORAGE_KEY\<close> holds the document text, \<open>SETTINGS_KEY\<close> the settings blob.
  \<open>None\<close> is what \<open>getItem\<close> returns as \<open>null\<close>.
\<close>

record session_storage =
  STORAGE_KEY :: "jsstring option"
  SETTINGS_KEY :: "settings_json option"

subsection \<open>Files, pending actions, calls that leave the component\<close>

text \<open>
  A \<open>File\<close> as the file picker or a drop hands it over. \<open>file_text\<close> is what
  \<open>readAsText\<close> will deliver: \<open>Some\<close> text to \<open>onload\<close>, or \<open>None\<close> when the read
  fails and \<open>onerror\<close> runs.
\<close>

record file_object =
  file_name :: jsstring
  file_type :: jsstring
  file_size :: nat
  file_text :: "jsstring option"

text \<open>
  The only closure \<open>setPendingAction\<close> ever stores is the reset of \<open>handleNew\<close>; it
  reads nothing of the render that built it.
\<close>

datatype action = ResetDocument

datatype effect =
    Alert
  | ConsoleWarn
  | ConsoleError
  | SetItem jsstring
  | RemoveItem
  | Download jsstring jsstring

subsection \<open>The state\<close>

record editor =
  content :: jsstring
  welcomeText :: jsstring
  showWelcome :: bool
  cursorPosition :: nat
  isSaved :: bool
  isAutoSaving :: bool
  autoSaveEnabled :: bool
  showSaveDialog :: bool
  showUnsavedDialog :: bool
  saveFilename :: jsstring
  isDragOver :: bool
  pendingAction :: "action option"
  settings :: EditorSettings
  autoSaveTimerRef :: "nat option"
  timeouts :: "(nat \<times> nat) list"
  next_id :: nat
  deferred :: "action list"
  readers :: "file_object list"
  sessionStorage :: session_storage
  clock :: nat
  trace :: "effect list"

text \<open>
  \<open>autoSaveTimerRef\<close> is the ref of that name: the id \<open>setTimeout\<close> returned last.
  \<open>timeouts\<close> are the autosave timeouts of the window that are still live, each with
  its id and the time it is due; \<open>clearTimeout\<close> removes one by its id, and ids
  (\<open>next_id\<close>) start at 1, so a stored id is truthy. \<open>deferred\<close> holds the
  100 ms timeouts of the dialog's Save button, \<open>readers\<close> the \<open>FileReader\<close>s in flight,
  \<open>clock\<close> the time in milliseconds.
\<close>

definition initial :: "session_storage \<Rightarrow> nat \<Rightarrow> effect list \<Rightarrow> editor" where
  "initial st t tr =
     \<lparr> content = [], welcomeText = [], showWelcome = True, cursorPosition = 0,
       isSaved = True, isAutoSaving = False, autoSaveEnabled = True,
       showSaveDialog = False, showUnsavedDialog = False,
       saveFilename = js ''document.txt'', isDragOver = False, pendingAction = None,
       settings = default_settings,
       autoSaveTimerRef = None, timeouts = [], next_id = 1, deferred = [], readers = [],
       sessionStorage = st, clock = t, trace = tr \<rparr>"

subsection \<open>Effects\<close>

text \<open>
  \<open>clearTimeout(autoSaveTimerRef.current)\<close> under \<open>if (autoSaveTimerRef.current)\<close>.
\<close>

definition clearTimer :: "editor \<Rightarrow> editor" where
  "clearTimer s =
     (case autoSaveTimerRef s of
        None \<Rightarrow> s
      | Some i \<Rightarrow> s\<lparr>timeouts := filter (\<lambda>(j, due). j \<noteq> i) (timeouts s)\<rparr>)"

text \<open>The body of the auto-save timer effect.\<close>

definition timer_effect :: "editor \<Rightarrow> editor" where
  "timer_effect s =
     (let s1 = clearTimer s in
      if \<not> isSaved s1 \<and> content s1 \<noteq> []
      then s1\<lparr>autoSaveTimerRef := Some (next_id s1),
              timeouts := timeouts s1 @ [(next_id s1, clock s1 + AUTO_SAVE_DELAY)],
              next_id := next_id s1 + 1\<rparr>
      else s1)"

text \<open>
  The effect that saves the settings when they change. Its write is taken to succeed: an
  exception thrown in an effect unmounts the component, after which it has no further
  states, and leaves the blob of the render before in the store.
\<close>

definition settings_effect :: "editor \<Rightarrow> editor" where
  "settings_effect s =
     s\<lparr>sessionStorage := (sessionStorage s)\<lparr>SETTINGS_KEY := Some (stringify (settings s))\<rparr>\<rparr>"

text \<open>
  What React runs after the render that follows a handler: \<open>prev\<close> is the state of the
  render before, \<open>s\<close> the state the handler left. The settings effect depends on
  \<open>settings\<close>. The timer effect depends on \<open>content\<close>, \<open>isSaved\<close> and \<open>autoSave\<close>,
  and \<open>autoSave\<close> is a new callback exactly when \<open>content\<close> or \<open>autoSaveEnabled\<close>
  changed; when it runs, the cleanup of its last run comes first, which clears the timer
  as well. (React compares the settings object by identity: a handler that builds an
  equal object runs the settings effect again, which writes the same JSON once more and
  leaves the store as it is. Only writes of the content key are recorded in the trace.)
\<close>

definition effects :: "editor \<Rightarrow> editor \<Rightarrow> editor" where
  "effects prev s =
     (let s1 = (if settings s \<noteq> settings prev then settings_effect s else s) in
      if content s1 \<noteq> content prev \<or> isSaved s1 \<noteq> isSaved prev
         \<or> autoSaveEnabled s1 \<noteq> autoSaveEnabled prev
      then timer_effect (clearTimer s1)
      else s1)"

subsection \<open>Handlers\<close>

text \<open>
  \<open>autoSave\<close>. The argument \<open>ok\<close> is the environment's answer to
  \<open>sessionStorage.setItem\<close> inside the \<open>try\<close>: \<open>True\<close> when it returns, \<open>False\<close>
  when it throws. After a throw the two calls of \<open>setIsAutoSaving\<close> leave \<open>False\<close>.
\<close>

definition autoSave :: "bool \<Rightarrow> editor \<Rightarrow> editor" where
  "autoSave ok s =
     (if \<not> autoSaveEnabled s \<or> length (content s) = 0 then s
      else if blob_size (content s) > MAX_FILE_SIZE
      then s\<lparr>autoSaveEnabled := False, trace := trace s @ [ConsoleWarn]\<rparr>
      else if ok
      then s\<lparr>isAutoSaving := True,
             sessionStorage := (sessionStorage s)\<lparr>STORAGE_KEY := Some (content s)\<rparr>,
             isSaved := True,
             trace := trace s @ [SetItem (content s)]\<rparr>
      else s\<lparr>isAutoSaving := False, trace := trace s @ [ConsoleError]\<rparr>)"

text \<open>\<open>handleChange\<close>, with \<open>e.target.value\<close> and \<open>e.target.selectionStart\<close>.\<close>

definition handleChange :: "jsstring \<Rightarrow> nat \<Rightarrow> editor \<Rightarrow> editor" where
  "handleChange v sel s =
     (let s1 = (if showWelcome s then s\<lparr>showWelcome := False, welcomeText := []\<rparr> else s) in
      s1\<lparr>content := v, cursorPosition := sel, isSaved := False\<rparr>)"

text \<open>
  The frame callback of \<open>handlePaste\<close>, with the value and the selection start of the
  textarea.
\<close>

definition handlePaste :: "jsstring \<Rightarrow> nat \<Rightarrow> editor \<Rightarrow> editor" where
  "handlePaste v sel s = s\<lparr>content := v, cursorPosition := sel\<rparr>"

text \<open>The reset that \<open>handleNew\<close> performs, at once or as the pending action.\<close>

definition reset_document :: "editor \<Rightarrow> editor" where
  "reset_document s =
     s\<lparr>content := [], showWelcome := True, welcomeText := [], isSaved := True,
       settings := (settings s)\<lparr>currentFilename := js ''document.txt''\<rparr>,
       sessionStorage := (sessionStorage s)\<lparr>STORAGE_KEY := None\<rparr>,
       trace := trace s @ [RemoveItem]\<rparr>"

fun run_action :: "action \<Rightarrow> editor \<Rightarrow> editor" where
  "run_action ResetDocument s = reset_document s"

definition handleNew :: "editor \<Rightarrow> editor" where
  "handleNew s =
     (if \<not> isSaved s \<and> length (content s) > 0
      then s\<lparr>pendingAction := Some ResetDocument, showUnsavedDialog := True\<rparr>
      else reset_document s)"

text \<open>
  \<open>handleOpen\<close> clicks the hidden file input; the choice of the user comes back as
  \<open>handleFileSelect\<close>.
\<close>

definition handleOpen :: "editor \<Rightarrow> editor" where
  "handleOpen s = s"

text \<open>
  \<open>readFile\<close> up to the start of the read, and the two callbacks of the reader.
  \<open>onload\<close> has the file (for its name) and the text that was read. Its last
  statement is \<open>sessionStorage.setItem\<close>, with no \<open>try\<close> around it; \<open>ok\<close> is the
  answer of the store, as in \<open>autoSave\<close>. When the store throws, the four setters before
  the call have run and the exception leaves the callback: the document is replaced and
  marked saved, and nothing is stored.
\<close>

definition readFile :: "file_object \<Rightarrow> editor \<Rightarrow> editor" where
  "readFile f s =
     (if file_size f > MAX_FILE_SIZE then s\<lparr>trace := trace s @ [Alert]\<rparr>
      else s\<lparr>readers := readers s @ [f]\<rparr>)"

definition reader_onload :: "file_object \<Rightarrow> jsstring \<Rightarrow> bool \<Rightarrow> editor \<Rightarrow> editor" where
  "reader_onload f text ok s =
     (let s1 = s\<lparr>content := text, showWelcome := False, isSaved := True,
                 settings := (settings s)\<lparr>currentFilename := file_name f\<rparr>\<rparr>
      in if ok
         then s1\<lparr>sessionStorage := (sessionStorage s1)\<lparr>STORAGE_KEY := Some text\<rparr>,
                trace := trace s1 @ [SetItem text]\<rparr>
         else s1)"

definition reader_onerror :: "editor \<Rightarrow> editor" where
  "reader_onerror s = s\<lparr>trace := trace s @ [ConsoleError]\<rparr>"

text \<open>
  The \<open>n\<close>-th reader in flight finishes; \<open>ok\<close> is the answer of the store to the
  write of \<open>onload\<close>.
\<close>

definition reader_done :: "nat \<Rightarrow> bool \<Rightarrow> editor \<Rightarrow> editor" where
  "reader_done n ok s =
     (if n < length (readers s)
      then (let f = readers s ! n;
                s1 = s\<lparr>readers := take n (readers s) @ drop (Suc n) (readers s)\<rparr>
            in case file_text f of
                 Some text \<Rightarrow> reader_onload f text ok s1
               | None \<Rightarrow> reader_onerror s1)
      else s)"

definition handleFileSelect :: "file_object option \<Rightarrow> editor \<Rightarrow> editor" where
  "handleFileSelect fo s = (case fo of Some f \<Rightarrow> readFile f s | None \<Rightarrow> s)"

definition is_text_file :: "file_object \<Rightarrow> bool" where
  "is_text_file f =
     (file_type f = js ''text/plain'' \<or> suffix (js ''.txt'') (file_name f)
      \<or> suffix (js ''.md'') (file_name f))"

definition handleDrop :: "file_object list \<Rightarrow> editor \<Rightarrow> editor" where
  "handleDrop files s =
     (let s1 = s\<lparr>isDragOver := False\<rparr> in
      case find is_text_file files of Some f \<Rightarrow> readFile f s1 | None \<Rightarrow> s1)"

definition handleSaveAs :: "editor \<Rightarrow> editor" where
  "handleSaveAs s = s\<lparr>saveFilename := currentFilename (settings s), showSaveDialog := True\<rparr>"

definition downloadFile :: "editor \<Rightarrow> editor" where
  "downloadFile s =
     s\<lparr>showSaveDialog := False, isSaved := True,
       settings := (settings s)\<lparr>currentFilename := saveFilename s\<rparr>,
       trace := trace s @ [Download (saveFilename s) (content s)]\<rparr>"

text \<open>The buttons of the Save-As dialog: its filename input, closing it, and Save.\<close>

definition setSaveFilename :: "jsstring \<Rightarrow> editor \<Rightarrow> editor" where
  "setSaveFilename v s = s\<lparr>saveFilename := v\<rparr>"

definition setShowSaveDialog :: "bool \<Rightarrow> editor \<Rightarrow> editor" where
  "setShowSaveDialog b s = s\<lparr>showSaveDialog := b\<rparr>"

text \<open>
  The buttons of the unsaved-changes dialog. Either button closes the dialog (through
  \<open>onOpenChange\<close>), and so does dismissing it. The Save button calls \<open>autoSave\<close> and
  leaves the pending action to a timeout of 100 ms, which \<open>deferred_fire\<close> runs.
\<close>

definition unsaved_dont_save :: "editor \<Rightarrow> editor" where
  "unsaved_dont_save s =
     (let s1 = (case pendingAction s of
                  Some a \<Rightarrow> (run_action a s)\<lparr>pendingAction := None\<rparr>
                | None \<Rightarrow> s)
      in s1\<lparr>showUnsavedDialog := False\<rparr>)"

definition unsaved_save :: "bool \<Rightarrow> editor \<Rightarrow> editor" where
  "unsaved_save ok s =
     (let s1 = autoSave ok s;
          s2 = (case pendingAction s of
                  Some a \<Rightarrow> s1\<lparr>deferred := deferred s1 @ [a]\<rparr>
                | None \<Rightarrow> s1)
      in s2\<lparr>showUnsavedDialog := False\<rparr>)"

definition unsaved_dismiss :: "editor \<Rightarrow> editor" where
  "unsaved_dismiss s = s\<lparr>showUnsavedDialog := False\<rparr>"

definition deferred_fire :: "editor \<Rightarrow> editor" where
  "deferred_fire s =
     (case deferred s of
        [] \<Rightarrow> s
      | a # as \<Rightarrow> (run_action a s)\<lparr>pendingAction := None, deferred := as\<rparr>)"

text \<open>The timeout of 500 ms that a successful save starts.\<close>

definition saving_indicator_off :: "editor \<Rightarrow> editor" where
  "saving_indicator_off s = s\<lparr>isAutoSaving := False\<rparr>"

definition handleSelectionChange :: "nat \<Rightarrow> editor \<Rightarrow> editor" where
  "handleSelectionChange sel s = s\<lparr>cursorPosition := sel\<rparr>"

text \<open>
  \<open>handleKeyDown\<close>. The event carries \<open>e.key\<close>, the platform modifier
  (\<open>metaKey\<close> on a Mac, \<open>ctrlKey\<close> elsewhere), \<open>shiftKey\<close> and the selection of the
  textarea. The Tab branch is all of the handler in the earlier revision; the hotkeys are
  those of the later one. The caret update that the Tab branch defers by a timeout of
  0 ms is applied at once.
\<close>

record key_event =
  key :: string
  cmdOrCtrl :: bool
  shiftKey :: bool
  selectionStart :: nat
  selectionEnd :: nat

definition toLowerCase :: "string \<Rightarrow> string" where
  "toLowerCase cs =
     map (\<lambda>c. case map_of (zip ''ABCDEFGHIJKLMNOPQRSTUVWXYZ'' ''abcdefghijklmnopqrstuvwxyz'') c of
                Some l \<Rightarrow> l
              | None \<Rightarrow> c) cs"

definition handleKeyDown :: "key_event \<Rightarrow> bool \<Rightarrow> editor \<Rightarrow> editor" where
  "handleKeyDown e ok s =
     (if key e = ''Tab''
      then s\<lparr>content := take (selectionStart e) (content s) @ js ''  ''
                          @ drop (selectionEnd e) (content s),
             cursorPosition := selectionStart e + 2\<rparr>
      else if cmdOrCtrl e
      then (let k = toLowerCase (key e) in
            if k = ''n'' then handleNew s
            else if k = ''o'' then handleOpen s
            else if k = ''s'' then (if shiftKey e then handleSaveAs s else autoSave ok s)
            else s)
      else s)"

text \<open>The callbacks \<open>Index\<close> hands to the control panel.\<close>

definition onFontSizeChange :: "int \<Rightarrow> editor \<Rightarrow> editor" where
  "onFontSizeChange v s = s\<lparr>settings := (settings s)\<lparr>fontSize := v\<rparr>\<rparr>"

definition onLeftMarginChange :: "int \<Rightarrow> editor \<Rightarrow> editor" where
  "onLeftMarginChange v s = s\<lparr>settings := (settings s)\<lparr>leftMargin := v\<rparr>\<rparr>"

definition onRightMarginChange :: "int \<Rightarrow> editor \<Rightarrow> editor" where
  "onRightMarginChange v s = s\<lparr>settings := (settings s)\<lparr>rightMargin := v\<rparr>\<rparr>"

definition onThemeToggle :: "editor \<Rightarrow> editor" where
  "onThemeToggle s = s\<lparr>settings := (settings s)\<lparr>isDarkMode := \<not> isDarkMode (settings s)\<rparr>\<rparr>"

definition onWordCountToggle :: "editor \<Rightarrow> editor" where
  "onWordCountToggle s =
     s\<lparr>settings := (settings s)\<lparr>showWordCount := \<not> showWordCount (settings s)\<rparr>\<rparr>"

definition onCountDisplayToggle :: "editor \<Rightarrow> editor" where
  "onCountDisplayToggle s =
     s\<lparr>settings := (settings s)\<lparr>showCountDisplay := \<not> showCountDisplay (settings s)\<rparr>\<rparr>"

subsection \<open>Mounting\<close>

text \<open>The effect that loads content and settings from \<open>sessionStorage\<close> on mount.\<close>

definition load_effect :: "editor \<Rightarrow> editor" where
  "load_effect s =
     (let s1 = (case STORAGE_KEY (sessionStorage s) of
                  Some c \<Rightarrow>
                    if c \<noteq> [] then s\<lparr>content := c, showWelcome := False, isSaved := True\<rparr>
                    else s
                | None \<Rightarrow> s)
      in case SETTINGS_KEY (sessionStorage s) of
           Some parsed \<Rightarrow> s1\<lparr>settings := spread default_settings parsed\<rparr>
         | None \<Rightarrow> s1)"

text \<open>
  A page load over the store \<open>st\<close>. The effects of the first render run in the order of
  the source: the load effect reads the store, then the settings effect writes the
  settings of the first render (the defaults), then the timer effect finds nothing to
  arm. The render that follows runs the effects whose dependencies the load changed.
\<close>

definition mount :: "session_storage \<Rightarrow> nat \<Rightarrow> effect list \<Rightarrow> editor" where
  "mount st t tr =
     (let s0 = initial st t tr;
          s1 = load_effect s0;
          s2 = s1\<lparr>sessionStorage := (sessionStorage s1)\<lparr>SETTINGS_KEY := Some (stringify (settings s0))\<rparr>\<rparr>
      in effects s0 s2)"

text \<open>A fresh tab: nothing in the store, time 0.\<close>

definition fresh :: editor where
  "fresh = mount \<lparr>STORAGE_KEY = None, SETTINGS_KEY = None\<rparr> 0 []"

subsection \<open>Events and time\<close>

datatype event =
    Change jsstring nat
  | PasteFrame jsstring nat
  | KeyDown key_event bool
  | SelectionChange nat
  | ClickNew
  | ClickOpen
  | ClickSaveAs
  | FileSelect "file_object option"
  | Drop "file_object list"
  | DragOver
  | DragLeave
  | ReaderDone nat bool
  | SaveFilenameInput jsstring
  | SaveDialogOpenChange bool
  | ClickDownload
  | UnsavedDontSave
  | UnsavedSave bool
  | UnsavedDismiss
  | DeferredFire
  | SavingIndicatorOff
  | FontSizeChange int
  | LeftMarginChange int
  | RightMarginChange int
  | ThemeToggle
  | WordCountToggle
  | CountDisplayToggle
  | Reload bool

fun handle :: "event \<Rightarrow> editor \<Rightarrow> editor" where
  "handle (Change v sel) s = handleChange v sel s"
| "handle (PasteFrame v sel) s = handlePaste v sel s"
| "handle (KeyDown e ok) s = handleKeyDown e ok s"
| "handle (SelectionChange sel) s = handleSelectionChange sel s"
| "handle ClickNew s = handleNew s"
| "handle ClickOpen s = handleOpen s"
| "handle ClickSaveAs s = handleSaveAs s"
| "handle (FileSelect fo) s = handleFileSelect fo s"
| "handle (Drop files) s = handleDrop files s"
| "handle DragOver s = s\<lparr>isDragOver := True\<rparr>"
| "handle DragLeave s = s\<lparr>isDragOver := False\<rparr>"
| "handle (ReaderDone n ok) s = reader_done n ok s"
| "handle (SaveFilenameInput v) s = setSaveFilename v s"
| "handle (SaveDialogOpenChange b) s = setShowSaveDialog b s"
| "handle ClickDownload s = downloadFile s"
| "handle UnsavedDontSave s = unsaved_dont_save s"
| "handle (UnsavedSave ok) s = unsaved_save ok s"
| "handle UnsavedDismiss s = unsaved_dismiss s"
| "handle DeferredFire s = deferred_fire s"
| "handle SavingIndicatorOff s = saving_indicator_off s"
| "handle (FontSizeChange v) s = onFontSizeChange v s"
| "handle (LeftMarginChange v) s = onLeftMarginChange v s"
| "handle (RightMarginChange v) s = onRightMarginChange v s"
| "handle ThemeToggle s = onThemeToggle s"
| "handle WordCountToggle s = onWordCountToggle s"
| "handle CountDisplayToggle s = onCountDisplayToggle s"
| "handle (Reload unloaded) s = s"

text \<open>
  One event: the handler, then the effects of the render that follows. A reload runs
  the \<open>beforeunload\<close> handler when the browser calls it (\<open>unloaded\<close>), which removes the
  content key, and mounts the component again over the store that is left; timeouts and
  readers of the old page are gone.
\<close>

definition step :: "editor \<Rightarrow> event \<Rightarrow> editor" where
  "step s e =
     (case e of
        Reload unloaded \<Rightarrow>
          (if unloaded
           then mount ((sessionStorage s)\<lparr>STORAGE_KEY := None\<rparr>) (clock s) (trace s @ [RemoveItem])
           else mount (sessionStorage s) (clock s) (trace s))
      | _ \<Rightarrow> effects s (handle e s))"

text \<open>
  The autosave timeout that fires next by time \<open>t\<close>: a live one that is due and that no
  other live one precedes.
\<close>

definition due :: "nat \<Rightarrow> (nat \<times> nat) list \<Rightarrow> (nat \<times> nat) option" where
  "due t ts = find (\<lambda>(i, d). d \<le> t \<and> list_all (\<lambda>(j, d'). d \<le> d') ts) ts"

text \<open>
  The timeout \<open>tm\<close> fires: it is no longer live, the clock stands at its due time, its
  callback \<open>autoSave\<close> runs and the render that follows runs its effects. The callback
  is the one of the render that armed the timeout; every change of \<open>content\<close> or
  \<open>autoSaveEnabled\<close> since would have cleared the timeout, so it reads the values of
  the current state.
\<close>

definition fire :: "bool \<Rightarrow> nat \<times> nat \<Rightarrow> editor \<Rightarrow> editor" where
  "fire ok tm s =
     (let s0 = s\<lparr>timeouts := filter (\<lambda>(j, d). j \<noteq> fst tm) (timeouts s),
                 clock := max (clock s) (snd tm)\<rparr>
      in effects s0 (autoSave ok s0))"

text \<open>
  Time passes until \<open>t\<close>: the timeouts due by then fire in order. A firing can arm
  one more timeout (when \<open>autoSave\<close> switches itself off, its callback changes and the
  timer effect runs again), so the function recurs; it ends since a firing either
  switches autosave off for good or leaves fewer live timeouts.
\<close>

function tick :: "bool \<Rightarrow> nat \<Rightarrow> editor \<Rightarrow> editor" where
  "tick ok t s =
     (case due t (timeouts s) of
        None \<Rightarrow> s\<lparr>clock := max (clock s) t\<rparr>
      | Some tm \<Rightarrow> tick ok t (fire ok tm s))"
  by pat_completeness auto
termination
proof (relation "measure (\<lambda>(ok, t, s). (if autoSaveEnabled s then 2 else 0) + length (timeouts s))")
  show "wf (measure (\<lambda>(ok, t, s). (if autoSaveEnabled s then 2 else 0) + length (timeouts s)))"
    by simp
next
  fix ok :: bool and t :: nat and s :: editor and tm :: "nat \<times> nat"
  assume d: "due t (timeouts s) = Some tm"
  have "x \<in> set xs" if "find P xs = Some x" for P and xs :: "(nat \<times> nat) list" and x
    using that by (induction xs) (auto split: if_splits)
  with d have m: "tm \<in> set (timeouts s)"
    unfolding due_def by blast
  \<comment> \<open>the timer effect adds at most one timeout, and none to a saved or empty document\<close>
  have cl: "length (timeouts (clearTimer r)) \<le> length (timeouts r)
      \<and> isSaved (clearTimer r) = isSaved r \<and> content (clearTimer r) = content r
      \<and> autoSaveEnabled (clearTimer r) = autoSaveEnabled r" for r
    by (simp add: clearTimer_def split: option.splits)
  have te: "length (timeouts (timer_effect (clearTimer r)))
        \<le> (if isSaved r \<or> content r = [] then length (timeouts r) else Suc (length (timeouts r)))
      \<and> autoSaveEnabled (timer_effect (clearTimer r)) = autoSaveEnabled r" for r
    using cl [of r] cl [of "clearTimer r"] by (simp add: timer_effect_def Let_def)
  have ef: "length (timeouts (effects p r))
        \<le> (if content r = content p \<and> isSaved r = isSaved p
               \<and> autoSaveEnabled r = autoSaveEnabled p then length (timeouts r)
            else if isSaved r \<or> content r = [] then length (timeouts r)
            else Suc (length (timeouts r)))
      \<and> autoSaveEnabled (effects p r) = autoSaveEnabled r" for p r
  proof -
    define r1 where "r1 = (if settings r \<noteq> settings p then settings_effect r else r)"
    have a: "isSaved r1 = isSaved r" "content r1 = content r" "timeouts r1 = timeouts r"
      "autoSaveEnabled r1 = autoSaveEnabled r"
      by (simp_all add: r1_def settings_effect_def)
    have e: "effects p r =
       (if content r1 \<noteq> content p \<or> isSaved r1 \<noteq> isSaved p
           \<or> autoSaveEnabled r1 \<noteq> autoSaveEnabled p
        then timer_effect (clearTimer r1) else r1)"
      by (simp add: effects_def r1_def Let_def)
    show ?thesis
    proof (cases "content r1 \<noteq> content p \<or> isSaved r1 \<noteq> isSaved p
           \<or> autoSaveEnabled r1 \<noteq> autoSaveEnabled p")
      case True
      then have "effects p r = timer_effect (clearTimer r1)"
        by (simp only: e if_True)
      with te [of r1] a True show ?thesis
        by (auto split: if_splits)
    next
      case False
      then have "effects p r = r1"
        by (simp only: e if_False)
      with a False show ?thesis
        by simp
    qed
  qed
  \<comment> \<open>the state in which the callback runs has lost the timeout that fires\<close>
  define s0 where "s0 = s\<lparr>timeouts := filter (\<lambda>(j, d). j \<noteq> fst tm) (timeouts s),
                 clock := max (clock s) (snd tm)\<rparr>"
  have lt: "length (timeouts s0) < length (timeouts s)"
    unfolding s0_def using length_filter_less [OF m, of "\<lambda>(j, d). j \<noteq> fst tm"]
    by (simp add: case_prod_beta)
  have en: "autoSaveEnabled s0 = autoSaveEnabled s"
    by (simp add: s0_def)
  have f: "fire ok tm s = effects s0 (autoSave ok s0)"
    by (simp add: fire_def s0_def Let_def)
  have "(content (autoSave ok s0) = content s0 \<and> isSaved (autoSave ok s0) = isSaved s0
          \<and> autoSaveEnabled (autoSave ok s0) = autoSaveEnabled s0
          \<and> timeouts (autoSave ok s0) = timeouts s0)
      \<or> (autoSaveEnabled s0 \<and> \<not> autoSaveEnabled (autoSave ok s0)
          \<and> timeouts (autoSave ok s0) = timeouts s0)
      \<or> (isSaved (autoSave ok s0) \<and> autoSaveEnabled (autoSave ok s0) = autoSaveEnabled s0
          \<and> timeouts (autoSave ok s0) = timeouts s0)"
    by (simp add: autoSave_def)
  then consider
      (same) "content (autoSave ok s0) = content s0" "isSaved (autoSave ok s0) = isSaved s0"
        "autoSaveEnabled (autoSave ok s0) = autoSaveEnabled s0"
        "timeouts (autoSave ok s0) = timeouts s0"
    | (off) "autoSaveEnabled s0" "\<not> autoSaveEnabled (autoSave ok s0)"
        "timeouts (autoSave ok s0) = timeouts s0"
    | (saved) "isSaved (autoSave ok s0)" "autoSaveEnabled (autoSave ok s0) = autoSaveEnabled s0"
        "timeouts (autoSave ok s0) = timeouts s0"
    by blast
  then have "(if autoSaveEnabled (fire ok tm s) then 2 else 0) + length (timeouts (fire ok tm s))
           < (if autoSaveEnabled s then 2 else 0) + length (timeouts s)"
  proof cases
    case same
    with ef [of s0 "autoSave ok s0"] lt en show ?thesis
      by (simp add: f)
  next
    case off
    with ef [of s0 "autoSave ok s0"] lt en show ?thesis
      by (simp add: f split: if_splits)
  next
    case saved
    with ef [of s0 "autoSave ok s0"] lt en show ?thesis
      by (simp add: f split: if_splits)
  qed
  then show "((ok, t, fire ok tm s), (ok, t, s))
      \<in> measure (\<lambda>(ok, t, s). (if autoSaveEnabled s then 2 else 0) + length (timeouts s))"
    by simp
qed

declare tick.simps [simp del]

text \<open>
  A run of the page: a list of events and of waits. \<open>Wait d ok\<close> lets \<open>d\<close>
  milliseconds pass; \<open>ok\<close> is the answer of the store to a write an autosave attempts
  in that time.
\<close>

datatype input = Ev event | Wait nat bool

fun exec :: "editor \<Rightarrow> input list \<Rightarrow> editor" where
  "exec s [] = s"
| "exec s (Ev e # rest) = exec (step s e) rest"
| "exec s (Wait d ok # rest) = exec (tick ok (clock s + d) s) rest"

subsection \<open>Example states and events\<close>

text \<open>A document that was typed into and then emptied.\<close>

definition emptied :: editor where
  "emptied = exec fresh [Ev (Change (js ''a'') 1), Ev (Change [] 0)]"

text \<open>The save hotkey.\<close>

definition ctrl_s :: key_event where
  "ctrl_s = \<lparr>key = ''s'', cmdOrCtrl = True, shiftKey = False, selectionStart = 0, selectionEnd = 0\<rparr>"

text \<open>A fresh document into which \<open>a\<close> was typed.\<close>

definition typed_a :: editor where
  "typed_a = exec fresh [Ev (Change (js ''a'') 1)]"

text \<open>Two files: a small Markdown file, and a text file over the size limit.\<close>

definition notes_md :: file_object where
  "notes_md = \<lparr>file_name = js ''notes.md'', file_type = [], file_size = 7,
                file_text = Some (js ''# Title'')\<rparr>"

definition huge_txt :: file_object where
  "huge_txt = \<lparr>file_name = js ''huge.txt'', file_type = js ''text/plain'',
                file_size = 5242881, file_text = Some (js ''x'')\<rparr>"

text \<open>Reloads end the session; a run without one stays in it.\<close>

fun is_reload :: "input \<Rightarrow> bool" where
  "is_reload (Ev (Reload u)) = True"
| "is_reload i = False"

text \<open>A fresh document into which 5 MiB and one byte of \<open>a\<close> were pasted.\<close>

definition oversized :: editor where
  "oversized = exec fresh [Ev (Change (replicate 5242881 0x61) 5242881)]"

subsection \<open>Runs of mutations\<close>

text \<open>
  A sequence of text mutations after a first one: each comes \<open>d\<close> milliseconds after
  the one before and sets the text to \<open>v\<close>. \<open>spaced prev ms\<close> says that each comes
  less than the debounce delay after the one before and changes the text; \<open>final_text\<close>
  is the text after the last.
\<close>

fun mutations :: "(nat \<times> jsstring \<times> nat) list \<Rightarrow> input list" where
  "mutations [] = []"
| "mutations ((d, v, sel) # ms) = Wait d True # Ev (Change v sel) # mutations ms"

fun spaced :: "jsstring \<Rightarrow> (nat \<times> jsstring \<times> nat) list \<Rightarrow> bool" where
  "spaced prev [] = True"
| "spaced prev ((d, v, sel) # ms) = (d < AUTO_SAVE_DELAY \<and> v \<noteq> prev \<and> spaced v ms)"

fun final_text :: "jsstring \<Rightarrow> (nat \<times> jsstring \<times> nat) list \<Rightarrow> jsstring" where
  "final_text prev [] = prev"
| "final_text prev ((d, v, sel) # ms) = final_text v ms"

text \<open>
  The state right after a mutation: dirty, and the timeout armed in that render is the
  only live one (none when the text is empty).
\<close>

definition armed :: "editor \<Rightarrow> bool" where
  "armed s =
     (\<not> isSaved s \<and> autoSaveEnabled s
      \<and> (if content s = [] then timeouts s = []
          else timeouts s = [(next_id s - 1, clock s + AUTO_SAVE_DELAY)]
               \<and> autoSaveTimerRef s = Some (next_id s - 1)))"

text \<open>At most one autosave timeout is live, and it is the one the ref holds.\<close>

definition one_timer :: "editor \<Rightarrow> bool" where
  "one_timer s =
     (length (timeouts s) \<le> 1 \<and> list_all (\<lambda>(i, d). autoSaveTimerRef s = Some i) (timeouts s))"

text \<open>The Tab key with the caret at offset 1, and the hotkey for New.\<close>

definition tab_key :: key_event where
  "tab_key = \<lparr>key = ''Tab'', cmdOrCtrl = False, shiftKey = False, selectionStart = 1, selectionEnd = 1\<rparr>"

definition ctrl_n :: key_event where
  "ctrl_n = \<lparr>key = ''N'', cmdOrCtrl = True, shiftKey = False, selectionStart = 0, selectionEnd = 0\<rparr>"

subsection \<open>The sliders of the control panel\<close>

text \<open>
  Modelled from the spec: the \<open>Slider\<close> component (\<open>components/ui/slider\<close>) is not
  among the sources. The control panel gives each slider \<open>min\<close>, \<open>max\<close> and
  \<open>step\<close>, and the spec states the ranges as fixed (font 12 to 24 px, margins 0 to
  200 px in steps of 4): a slider calls \<open>onValueChange\<close> only with values from
  \<open>min\<close> to \<open>max\<close> that are whole steps away from \<open>min\<close>.
\<close>

definition slider_emits :: "int \<Rightarrow> int \<Rightarrow> int \<Rightarrow> int \<Rightarrow> bool" where
  "slider_emits lo hi stp v = (lo \<le> v \<and> v \<le> hi \<and> (v - lo) mod stp = 0)"

text \<open>
  The events the control panel can send: its three sliders have the bounds written in
  \<open>ControlPanel\<close> (12, 24, 1 for the font size; 0, 200, 4 for either margin).
\<close>

fun event_ok :: "event \<Rightarrow> bool" where
  "event_ok (FontSizeChange v) = slider_emits 12 24 1 v"
| "event_ok (LeftMarginChange v) = slider_emits 0 200 4 v"
| "event_ok (RightMarginChange v) = slider_emits 0 200 4 v"
| "event_ok e = True"

fun input_ok :: "input \<Rightarrow> bool" where
  "input_ok (Ev e) = event_ok e"
| "input_ok (Wait d ok) = True"

text \<open>The ranges of the numeric settings.\<close>

definition settings_ok :: "EditorSettings \<Rightarrow> bool" where
  "settings_ok st =
     (12 \<le> fontSize st \<and> fontSize st \<le> 24
      \<and> 0 \<le> leftMargin st \<and> leftMargin st \<le> 200 \<and> leftMargin st mod 4 = 0
      \<and> 0 \<le> rightMargin st \<and> rightMargin st \<le> 200 \<and> rightMargin st mod 4 = 0)"

text \<open>The settings are in range and the store holds their JSON.\<close>

definition mirrored :: "editor \<Rightarrow> bool" where
  "mirrored s =
     (settings_ok (settings s)
      \<and> SETTINGS_KEY (sessionStorage s) = Some (stringify (settings s)))"

section \<open>Properties\<close>

subsection \<open>Shared lemmas\<close>

lemmas model_defs =
  fresh_def mount_def initial_def load_effect_def effects_def step_def
  timer_effect_def clearTimer_def settings_effect_def stringify_def default_settings_def
  handleChange_def js_def AUTO_SAVE_DELAY_def MAX_FILE_SIZE_def Let_def

lemma clearTimer_fields [simp]:
  "autoSaveEnabled (clearTimer s) = autoSaveEnabled s"
  "isSaved (clearTimer s) = isSaved s"
  "content (clearTimer s) = content s"
  by (simp_all add: clearTimer_def split: option.splits)

lemma timer_effect_enabled [simp]: "autoSaveEnabled (timer_effect s) = autoSaveEnabled s"
  by (simp add: timer_effect_def Let_def)

lemma settings_effect_fields [simp]:
  "autoSaveEnabled (settings_effect s) = autoSaveEnabled s"
  "isSaved (settings_effect s) = isSaved s"
  "content (settings_effect s) = content s"
  "timeouts (settings_effect s) = timeouts s"
  by (simp_all add: settings_effect_def)

lemma effects_enabled [simp]: "autoSaveEnabled (effects p s) = autoSaveEnabled s"
  by (simp add: effects_def Let_def)

lemma effects_refl: "effects s s = s"
  by (simp add: effects_def)

lemma fire_empty:
  assumes "content s = []"
  shows "content (fire ok tm s) = [] \<and> sessionStorage (fire ok tm s) = sessionStorage s
         \<and> isSaved (fire ok tm s) = isSaved s \<and> trace (fire ok tm s) = trace s"
  using assms by (simp add: fire_def autoSave_def effects_refl Let_def)

lemma tick_empty:
  "content s = [] \<Longrightarrow>
     content (tick ok t s) = [] \<and> sessionStorage (tick ok t s) = sessionStorage s
       \<and> isSaved (tick ok t s) = isSaved s \<and> trace (tick ok t s) = trace s"
proof (induction ok t s rule: tick.induct)
  case (1 ok t s)
  show ?case
  proof (cases "due t (timeouts s)")
    case None
    then show ?thesis using 1 by (subst tick.simps; simp)+
  next
    case (Some tm)
    have e: "tick ok t s = tick ok t (fire ok tm s)"
      using Some by (subst tick.simps) simp
    from fire_empty [OF "1.prems", of ok tm] "1.IH" [OF Some]
    show ?thesis unfolding e by simp
  qed
qed

lemma emptied_facts: "content emptied = [] \<and> \<not> isSaved emptied \<and> timeouts emptied = []"
  by (simp add: emptied_def model_defs)

lemma clearTimer_proj [simp]:
  "welcomeText (clearTimer s) = welcomeText s"
  "showWelcome (clearTimer s) = showWelcome s"
  "cursorPosition (clearTimer s) = cursorPosition s"
  "isAutoSaving (clearTimer s) = isAutoSaving s"
  "showSaveDialog (clearTimer s) = showSaveDialog s"
  "showUnsavedDialog (clearTimer s) = showUnsavedDialog s"
  "saveFilename (clearTimer s) = saveFilename s"
  "isDragOver (clearTimer s) = isDragOver s"
  "pendingAction (clearTimer s) = pendingAction s"
  "settings (clearTimer s) = settings s"
  "autoSaveTimerRef (clearTimer s) = autoSaveTimerRef s"
  "next_id (clearTimer s) = next_id s"
  "deferred (clearTimer s) = deferred s"
  "readers (clearTimer s) = readers s"
  "sessionStorage (clearTimer s) = sessionStorage s"
  "clock (clearTimer s) = clock s"
  "trace (clearTimer s) = trace s"
  by (simp_all add: clearTimer_def split: option.splits)

lemma timer_effect_proj [simp]:
  "content (timer_effect s) = content s"
  "welcomeText (timer_effect s) = welcomeText s"
  "showWelcome (timer_effect s) = showWelcome s"
  "cursorPosition (timer_effect s) = cursorPosition s"
  "isSaved (timer_effect s) = isSaved s"
  "isAutoSaving (timer_effect s) = isAutoSaving s"
  "showSaveDialog (timer_effect s) = showSaveDialog s"
  "showUnsavedDialog (timer_effect s) = showUnsavedDialog s"
  "saveFilename (timer_effect s) = saveFilename s"
  "isDragOver (timer_effect s) = isDragOver s"
  "pendingAction (timer_effect s) = pendingAction s"
  "settings (timer_effect s) = settings s"
  "deferred (timer_effect s) = deferred s"
  "readers (timer_effect s) = readers s"
  "sessionStorage (timer_effect s) = sessionStorage s"
  "clock (timer_effect s) = clock s"
  "trace (timer_effect s) = trace s"
  by (simp_all add: timer_effect_def Let_def)

lemma effects_proj [simp]:
  "content (effects p s) = content s"
  "welcomeText (effects p s) = welcomeText s"
  "showWelcome (effects p s) = showWelcome s"
  "cursorPosition (effects p s) = cursorPosition s"
  "isSaved (effects p s) = isSaved s"
  "isAutoSaving (effects p s) = isAutoSaving s"
  "showSaveDialog (effects p s) = showSaveDialog s"
  "showUnsavedDialog (effects p s) = showUnsavedDialog s"
  "saveFilename (effects p s) = saveFilename s"
  "isDragOver (effects p s) = isDragOver s"
  "pendingAction (effects p s) = pendingAction s"
  "settings (effects p s) = settings s"
  "deferred (effects p s) = deferred s"
  "readers (effects p s) = readers s"
  "STORAGE_KEY (sessionStorage (effects p s)) = STORAGE_KEY (sessionStorage s)"
  "clock (effects p s) = clock s"
  "trace (effects p s) = trace s"
  by (simp_all add: effects_def settings_effect_def Let_def)

lemma typed_a_facts:
  "autoSaveEnabled typed_a \<and> content typed_a = [0x61] \<and> \<not> isSaved typed_a
   \<and> timeouts typed_a = [(1, 3000)] \<and> trace typed_a = []
   \<and> STORAGE_KEY (sessionStorage typed_a) = None"
  by (simp add: typed_a_def model_defs)

lemma fresh_facts:
  "content fresh = [] \<and> isSaved fresh \<and> readers fresh = [] \<and> trace fresh = []
   \<and> timeouts fresh = [] \<and> autoSaveEnabled fresh \<and> clock fresh = 0
   \<and> showWelcome fresh \<and> STORAGE_KEY (sessionStorage fresh) = None"
  by (simp add: model_defs)

lemma blob_size_ascii: "list_all (\<lambda>u. u < 0x80) us \<Longrightarrow> blob_size us = length us"
proof (induction us rule: blob_size.induct)
  case 1
  show ?case by simp
next
  case (2 u)
  then show ?case by (simp add: unit_size_def)
next
  case (3 u v us)
  from "3.prems" have u: "u < 0x80" by simp
  then have "\<not> is_high_surrogate u"
    by (simp add: is_high_surrogate_def word_less_nat_alt word_le_nat_alt)
  with 3 u show ?case by (simp add: unit_size_def)
qed

lemma blob_size_replicate: "u < 0x80 \<Longrightarrow> blob_size (replicate n u) = n"
  using blob_size_ascii [of "replicate n u"] by (simp add: list_all_iff)

lemma handle_enabled: "autoSaveEnabled (handle e s) \<longrightarrow> autoSaveEnabled s"
proof (cases e)
  case (KeyDown k ok)
  then show ?thesis
    by (simp add: handleKeyDown_def handleNew_def reset_document_def handleOpen_def
          handleSaveAs_def autoSave_def Let_def split: if_splits)
next
  case (ReaderDone n acc)
  then show ?thesis
    by (simp add: reader_done_def reader_onload_def reader_onerror_def Let_def
          split: if_splits option.splits)
next
  case (Drop files)
  then show ?thesis
    by (simp add: handleDrop_def readFile_def Let_def split: if_splits option.splits)
next
  case (FileSelect fo)
  then show ?thesis
    by (simp add: handleFileSelect_def readFile_def split: if_splits option.splits)
next
  case UnsavedDontSave
  then show ?thesis
    by (cases "pendingAction s"; cases "the (pendingAction s)")
       (simp_all add: unsaved_dont_save_def reset_document_def Let_def)
next
  case (UnsavedSave ok)
  then show ?thesis
    by (simp add: unsaved_save_def autoSave_def Let_def split: if_splits option.splits)
next
  case DeferredFire
  then show ?thesis
    by (cases "deferred s"; cases "hd (deferred s)")
       (simp_all add: deferred_fire_def reset_document_def)
qed (simp_all add: handleChange_def handlePaste_def handleSelectionChange_def handleNew_def
       reset_document_def handleOpen_def handleSaveAs_def setSaveFilename_def
       setShowSaveDialog_def downloadFile_def unsaved_dismiss_def saving_indicator_off_def
       onFontSizeChange_def onLeftMarginChange_def onRightMarginChange_def onThemeToggle_def
       onWordCountToggle_def onCountDisplayToggle_def Let_def split: if_splits)

lemma step_disabled:
  "\<not> autoSaveEnabled s \<Longrightarrow> \<not> is_reload (Ev e) \<Longrightarrow> \<not> autoSaveEnabled (step s e)"
  using handle_enabled [of e s] by (cases e) (simp_all add: step_def)

lemma effects_store_same:
  "settings s = settings p \<Longrightarrow> sessionStorage (effects p s) = sessionStorage s"
  by (simp add: effects_def Let_def)

lemma fire_disabled:
  "\<not> autoSaveEnabled s \<Longrightarrow>
     fire ok tm s = s\<lparr>timeouts := filter (\<lambda>(j, d). j \<noteq> fst tm) (timeouts s),
                      clock := max (clock s) (snd tm)\<rparr>"
  by (simp add: fire_def autoSave_def effects_refl Let_def)

lemma tick_disabled:
  "\<not> autoSaveEnabled s \<Longrightarrow>
     \<not> autoSaveEnabled (tick ok t s) \<and> sessionStorage (tick ok t s) = sessionStorage s
       \<and> trace (tick ok t s) = trace s \<and> isSaved (tick ok t s) = isSaved s
       \<and> content (tick ok t s) = content s"
proof (induction ok t s rule: tick.induct)
  case (1 ok t s)
  show ?case
  proof (cases "due t (timeouts s)")
    case None
    then show ?thesis using "1.prems" by (subst tick.simps; simp)+
  next
    case (Some tm)
    have e: "tick ok t s = tick ok t (fire ok tm s)"
      using Some by (subst tick.simps) simp
    have f: "\<not> autoSaveEnabled (fire ok tm s)"
      using "1.prems" by (simp add: fire_disabled)
    from "1.IH" [OF Some f] "1.prems" show ?thesis
      unfolding e by (simp add: fire_disabled)
  qed
qed

lemma exec_disabled:
  "\<not> autoSaveEnabled s \<Longrightarrow> \<not> list_ex is_reload is \<Longrightarrow> \<not> autoSaveEnabled (exec s is)"
proof (induction "is" arbitrary: s)
  case Nil
  then show ?case by simp
next
  case (Cons i "is")
  show ?case
  proof (cases i)
    case (Ev e)
    with Cons.prems have "\<not> autoSaveEnabled (step s e)"
      by (intro step_disabled) simp_all
    with Cons Ev show ?thesis by simp
  next
    case (Wait d ok)
    with Cons.prems have "\<not> autoSaveEnabled (tick ok (clock s + d) s)"
      using tick_disabled by blast
    with Cons Wait show ?thesis by simp
  qed
qed

lemma disabled_run:
  assumes "\<not> autoSaveEnabled d" and "\<not> list_ex is_reload is"
  shows "\<not> autoSaveEnabled (exec d is)
     \<and> autoSave ok (exec d is) = exec d is
     \<and> sessionStorage (tick ok t (exec d is)) = sessionStorage (exec d is)
     \<and> trace (tick ok t (exec d is)) = trace (exec d is)"
proof -
  have e: "\<not> autoSaveEnabled (exec d is)"
    using assms by (rule exec_disabled)
  from e tick_disabled [OF e, of ok t] show ?thesis
    by (simp add: autoSave_def)
qed

lemma oversized_facts:
  "content oversized = replicate 5242881 0x61 \<and> autoSaveEnabled oversized
   \<and> \<not> isSaved oversized \<and> timeouts oversized = [(1, 3000)]
   \<and> trace oversized = [] \<and> STORAGE_KEY (sessionStorage oversized) = None"
  by (simp add: oversized_def model_defs)

lemma run_action_any: "run_action a s = reset_document s"
  by (cases a) simp

lemma autoSave_timer_fields [simp]:
  "timeouts (autoSave ok s) = timeouts s"
  "autoSaveTimerRef (autoSave ok s) = autoSaveTimerRef s"
  "next_id (autoSave ok s) = next_id s"
  "clock (autoSave ok s) = clock s"
  by (simp_all add: autoSave_def)

lemma reset_timer_fields [simp]:
  "timeouts (reset_document s) = timeouts s"
  "autoSaveTimerRef (reset_document s) = autoSaveTimerRef s"
  "next_id (reset_document s) = next_id s"
  "clock (reset_document s) = clock s"
  by (simp_all add: reset_document_def)

lemma handle_timer_fields:
  "timeouts (handle e s) = timeouts s \<and> autoSaveTimerRef (handle e s) = autoSaveTimerRef s
   \<and> next_id (handle e s) = next_id s \<and> clock (handle e s) = clock s"
proof (cases e)
  case (KeyDown k ok)
  then show ?thesis
    by (simp add: handleKeyDown_def handleNew_def handleOpen_def handleSaveAs_def Let_def)
next
  case (ReaderDone n acc)
  then show ?thesis
    by (simp add: reader_done_def reader_onload_def reader_onerror_def Let_def
          split: option.splits)
next
  case (Drop files)
  then show ?thesis
    by (simp add: handleDrop_def readFile_def Let_def split: option.splits)
next
  case (FileSelect fo)
  then show ?thesis
    by (simp add: handleFileSelect_def readFile_def split: option.splits)
next
  case UnsavedDontSave
  then show ?thesis
    by (simp add: unsaved_dont_save_def run_action_any Let_def split: option.splits)
next
  case (UnsavedSave ok)
  then show ?thesis
    by (simp add: unsaved_save_def Let_def split: option.splits)
next
  case DeferredFire
  then show ?thesis
    by (simp add: deferred_fire_def run_action_any split: list.splits)
qed (simp_all add: handleChange_def handlePaste_def handleSelectionChange_def handleNew_def
       handleOpen_def handleSaveAs_def setSaveFilename_def
       setShowSaveDialog_def downloadFile_def unsaved_dismiss_def saving_indicator_off_def
       onFontSizeChange_def onLeftMarginChange_def onRightMarginChange_def onThemeToggle_def
       onWordCountToggle_def onCountDisplayToggle_def Let_def)

lemma one_timer_cong:
  "timeouts s' = timeouts s \<Longrightarrow> autoSaveTimerRef s' = autoSaveTimerRef s
     \<Longrightarrow> one_timer s' = one_timer s"
  by (simp add: one_timer_def)

lemma one_timer_clear: "one_timer s \<Longrightarrow> timeouts (clearTimer s) = []"
proof -
  assume o: "one_timer s"
  show ?thesis
  proof (cases "timeouts s")
    case Nil
    then show ?thesis by (simp add: clearTimer_def split: option.splits)
  next
    case (Cons tm rest)
    with o have r: "rest = []" by (simp add: one_timer_def)
    obtain i d where tm: "tm = (i, d)" by (cases tm)
    from o Cons r tm have "autoSaveTimerRef s = Some i" by (simp add: one_timer_def)
    with Cons r tm show ?thesis by (simp add: clearTimer_def)
  qed
qed

lemma clearTimer_ref [simp]: "autoSaveTimerRef (clearTimer s) = autoSaveTimerRef s"
  by (simp add: clearTimer_def split: option.splits)

lemma one_timer_clearTimer: "one_timer s \<Longrightarrow> one_timer (clearTimer s)"
  using one_timer_clear [of s] by (simp add: one_timer_def)

lemma timer_effect_after_clear:
  "timeouts s = [] \<Longrightarrow>
     timeouts (timer_effect s) =
       (if \<not> isSaved s \<and> content s \<noteq> [] then [(next_id s, clock s + AUTO_SAVE_DELAY)] else [])
     \<and> autoSaveTimerRef (timer_effect s) =
       (if \<not> isSaved s \<and> content s \<noteq> [] then Some (next_id s) else autoSaveTimerRef s)
     \<and> next_id (timer_effect s) =
       (if \<not> isSaved s \<and> content s \<noteq> [] then next_id s + 1 else next_id s)"
  by (simp add: timer_effect_def clearTimer_def Let_def split: option.splits)

lemma one_timer_timer_effect: "one_timer s \<Longrightarrow> one_timer (timer_effect (clearTimer s))"
  using timer_effect_after_clear [of "clearTimer s"] one_timer_clear [of s]
  by (simp add: one_timer_def)

lemma settings_effect_timer_fields [simp]:
  "autoSaveTimerRef (settings_effect s) = autoSaveTimerRef s"
  "next_id (settings_effect s) = next_id s"
  "clock (settings_effect s) = clock s"
  by (simp_all add: settings_effect_def)

lemma one_timer_effects: "one_timer s \<Longrightarrow> one_timer (effects p s)"
proof -
  assume o: "one_timer s"
  define s1 where "s1 = (if settings s \<noteq> settings p then settings_effect s else s)"
  have o1: "one_timer s1"
    using o by (simp add: s1_def one_timer_def)
  have e: "effects p s = timer_effect (clearTimer s1) \<or> effects p s = s1"
    by (simp add: effects_def s1_def Let_def)
  with o1 one_timer_timer_effect [OF o1] show ?thesis by auto
qed

lemma load_effect_timer_fields [simp]:
  "timeouts (load_effect s) = timeouts s"
  "autoSaveTimerRef (load_effect s) = autoSaveTimerRef s"
  by (simp_all add: load_effect_def Let_def split: option.splits)

lemma one_timer_mount: "one_timer (mount st t tr)"
proof -
  have "one_timer ((load_effect (initial st t tr))\<lparr>sessionStorage := x\<rparr>)" for x
    by (simp add: one_timer_def initial_def)
  then show ?thesis
    unfolding mount_def Let_def by (intro one_timer_effects)
qed

lemma step_handle: "\<forall>u. e \<noteq> Reload u \<Longrightarrow> step s e = effects s (handle e s)"
  by (cases e) (auto simp: step_def)

lemma one_timer_step: "one_timer s \<Longrightarrow> one_timer (step s e)"
proof (cases "\<exists>u. e = Reload u")
  case True
  then show ?thesis by (auto simp: step_def one_timer_mount)
next
  case False
  assume o: "one_timer s"
  from False have s: "step s e = effects s (handle e s)"
    by (intro step_handle) simp
  have "one_timer (handle e s)"
    using o handle_timer_fields [of e s] one_timer_cong [of "handle e s" s] by simp
  then show ?thesis
    unfolding s by (rule one_timer_effects)
qed

lemma one_timer_fire: "one_timer s \<Longrightarrow> one_timer (fire ok tm s)"
proof -
  assume o: "one_timer s"
  define s0 where "s0 = s\<lparr>timeouts := filter (\<lambda>(j, d). j \<noteq> fst tm) (timeouts s),
                 clock := max (clock s) (snd tm)\<rparr>"
  have "length (timeouts s0) \<le> length (timeouts s)"
    by (simp add: s0_def)
  moreover have "list_all (\<lambda>(i, d). autoSaveTimerRef s0 = Some i) (timeouts s0)"
    using o by (auto simp: s0_def one_timer_def list_all_iff)
  ultimately have "one_timer s0"
    using o by (simp add: one_timer_def)
  then have "one_timer (autoSave ok s0)"
    by (simp add: one_timer_cong [of "autoSave ok s0" s0])
  then have "one_timer (effects s0 (autoSave ok s0))"
    by (rule one_timer_effects)
  then show ?thesis
    by (simp add: fire_def s0_def Let_def)
qed

lemma one_timer_tick: "one_timer s \<Longrightarrow> one_timer (tick ok t s)"
proof (induction ok t s rule: tick.induct)
  case (1 ok t s)
  show ?case
  proof (cases "due t (timeouts s)")
    case None
    then have "tick ok t s = s\<lparr>clock := max (clock s) t\<rparr>"
      by (subst tick.simps) simp
    with "1.prems" show ?thesis by (simp add: one_timer_def)
  next
    case (Some tm)
    have e: "tick ok t s = tick ok t (fire ok tm s)"
      using Some by (subst tick.simps) simp
    from "1.IH" [OF Some one_timer_fire [OF "1.prems"]] show ?thesis
      unfolding e .
  qed
qed

lemma one_timer_exec: "one_timer s \<Longrightarrow> one_timer (exec s is)"
proof (induction "is" arbitrary: s)
  case Nil
  then show ?case by simp
next
  case (Cons i "is")
  then show ?case
    by (cases i) (simp_all add: one_timer_step one_timer_tick)
qed

lemma armed_one_timer: "armed s \<Longrightarrow> one_timer s"
  by (simp add: armed_def one_timer_def split: if_splits)

lemma change_arms:
  assumes o: "one_timer s" and en: "autoSaveEnabled s" and ne: "v \<noteq> content s"
  shows "armed (step s (Change v sel)) \<and> content (step s (Change v sel)) = v
     \<and> trace (step s (Change v sel)) = trace s
     \<and> clock (step s (Change v sel)) = clock s
     \<and> STORAGE_KEY (sessionStorage (step s (Change v sel))) = STORAGE_KEY (sessionStorage s)"
proof -
  define h where "h = handleChange v sel s"
  have hf: "content h = v" "\<not> isSaved h" "autoSaveEnabled h" "trace h = trace s"
    "clock h = clock s" "settings h = settings s" "timeouts h = timeouts s"
    "autoSaveTimerRef h = autoSaveTimerRef s" "next_id h = next_id s"
    "sessionStorage h = sessionStorage s"
    using en by (simp_all add: h_def handleChange_def Let_def)
  have oh: "one_timer h"
    using o hf by (simp add: one_timer_def)
  have e: "effects s h = timer_effect (clearTimer h)"
    using hf ne by (simp add: effects_def Let_def)
  have c: "timeouts (clearTimer h) = []"
    using oh by (rule one_timer_clear)
  from timer_effect_after_clear [OF c] hf
  have "armed (timer_effect (clearTimer h))"
    by (simp add: armed_def)
  then show ?thesis
    using hf by (simp add: step_def h_def [symmetric] e)
qed

lemma due_Nil [simp]: "due t [] = None"
  by (simp add: due_def)

lemma due_single: "due t [(i, d)] = (if d \<le> t then Some (i, d) else None)"
  by (simp add: due_def)

lemma armed_idle:
  assumes a: "armed s" and d: "d < AUTO_SAVE_DELAY"
  shows "tick ok (clock s + d) s = s\<lparr>clock := clock s + d\<rparr>"
proof -
  have "due (clock s + d) (timeouts s) = None"
    using a d by (simp add: armed_def due_single split: if_splits)
  then show ?thesis
    by (subst tick.simps) simp
qed

lemma armed_fires:
  assumes a: "armed s" and ne: "content s \<noteq> []"
    and fits: "blob_size (content s) \<le> MAX_FILE_SIZE" and d: "AUTO_SAVE_DELAY \<le> d"
  shows "trace (tick True (clock s + d) s) = trace s @ [SetItem (content s)]
     \<and> STORAGE_KEY (sessionStorage (tick True (clock s + d) s)) = Some (content s)
     \<and> isSaved (tick True (clock s + d) s)
     \<and> timeouts (tick True (clock s + d) s) = []
     \<and> content (tick True (clock s + d) s) = content s"
proof -
  define tm where "tm = (next_id s - 1, clock s + AUTO_SAVE_DELAY)"
  have ts: "timeouts s = [tm]" and rf: "autoSaveTimerRef s = Some (fst tm)"
    and ns: "\<not> isSaved s" and en: "autoSaveEnabled s"
    using a ne by (simp_all add: armed_def tm_def)
  have du: "due (clock s + d) (timeouts s) = Some tm"
    using d by (simp add: ts tm_def due_single)
  define s0 where "s0 = s\<lparr>timeouts := filter (\<lambda>(j, d). j \<noteq> fst tm) (timeouts s),
                 clock := max (clock s) (snd tm)\<rparr>"
  have s0: "timeouts s0 = []" "content s0 = content s" "\<not> isSaved s0" "autoSaveEnabled s0"
    "trace s0 = trace s" "sessionStorage s0 = sessionStorage s"
    using ns en by (simp_all add: s0_def ts case_prod_beta)
  define s1 where "s1 = autoSave True s0"
  have s1: "timeouts s1 = []" "content s1 = content s" "isSaved s1"
    "trace s1 = trace s @ [SetItem (content s)]"
    "STORAGE_KEY (sessionStorage s1) = Some (content s)" "settings s1 = settings s0"
    using s0 ne fits by (simp_all add: s1_def autoSave_def)
  have e: "effects s0 s1 = timer_effect (clearTimer s1)"
    using s0 s1 by (simp add: effects_def Let_def)
  have c: "timeouts (clearTimer s1) = []"
    using s1 by (simp add: clearTimer_def split: option.splits)
  have f: "fire True tm s = timer_effect (clearTimer s1)"
    by (simp add: fire_def s0_def [symmetric] s1_def [symmetric] e Let_def)
  have ft: "timeouts (fire True tm s) = []"
    using timer_effect_after_clear [OF c] s1 by (simp add: f)
  have t1: "tick True (clock s + d) s = tick True (clock s + d) (fire True tm s)"
    using du by (subst tick.simps) simp
  have t2: "tick True (clock s + d) (fire True tm s)
      = (fire True tm s)\<lparr>clock := max (clock (fire True tm s)) (clock s + d)\<rparr>"
    by (subst tick.simps) (simp add: ft)
  show ?thesis
    unfolding t1 t2 using s1 ft by (simp add: f)
qed

lemma mutations_run:
  "armed s \<Longrightarrow> spaced (content s) ms \<Longrightarrow>
     armed (exec s (mutations ms)) \<and> content (exec s (mutations ms)) = final_text (content s) ms
     \<and> trace (exec s (mutations ms)) = trace s
     \<and> STORAGE_KEY (sessionStorage (exec s (mutations ms))) = STORAGE_KEY (sessionStorage s)"
proof (induction ms arbitrary: s)
  case Nil
  then show ?case by simp
next
  case (Cons m ms)
  obtain d v sel where m: "m = (d, v, sel)" by (cases m)
  from Cons.prems m have d: "d < AUTO_SAVE_DELAY" and v: "v \<noteq> content s" and sp: "spaced v ms"
    by simp_all
  define w where "w = s\<lparr>clock := clock s + d\<rparr>"
  have tw: "tick True (clock s + d) s = w"
    using armed_idle [OF Cons.prems(1) d] by (simp add: w_def)
  have ow: "one_timer w"
    using armed_one_timer [OF Cons.prems(1)] by (simp add: w_def one_timer_def)
  have ew: "autoSaveEnabled w" "content w = content s" "trace w = trace s"
    "sessionStorage w = sessionStorage s"
    using Cons.prems(1) by (simp_all add: w_def armed_def)
  from v have v': "v \<noteq> content w" by (simp add: ew)
  note c = change_arms [OF ow ew(1) v', of sel]
  from c have a: "armed (step w (Change v sel))" and cv: "content (step w (Change v sel)) = v"
    by blast+
  from sp cv have sp': "spaced (content (step w (Change v sel))) ms" by simp
  from Cons.IH [OF a sp'] c ew show ?case
    by (simp add: m tw)
qed

lemma exec_append: "exec s (xs @ ys) = exec (exec s xs) ys"
proof (induction xs arbitrary: s)
  case Nil
  show ?case by simp
next
  case (Cons i xs)
  then show ?case by (cases i) simp_all
qed

lemmas run_defs = model_defs due_def fire_def autoSave_def unit_size_def
  is_high_surrogate_def is_low_surrogate_def tick.simps

lemma reset_document_proj [simp]:
  "content (reset_document s) = []"
  "showWelcome (reset_document s)"
  "isSaved (reset_document s)"
  "STORAGE_KEY (sessionStorage (reset_document s)) = None"
  "currentFilename (settings (reset_document s)) = js ''document.txt''"
  "showUnsavedDialog (reset_document s) = showUnsavedDialog s"
  "pendingAction (reset_document s) = pendingAction s"
  "deferred (reset_document s) = deferred s"
  by (simp_all add: reset_document_def)

lemma autoSave_proj [simp]:
  "content (autoSave ok s) = content s"
  "showUnsavedDialog (autoSave ok s) = showUnsavedDialog s"
  "pendingAction (autoSave ok s) = pendingAction s"
  "deferred (autoSave ok s) = deferred s"
  "settings (autoSave ok s) = settings s"
  by (simp_all add: autoSave_def)

lemma spread_stringify: "spread d (stringify x) = x"
  by (simp add: spread_def stringify_def)

lemma settings_ok_filename [simp]:
  "settings_ok (st\<lparr>currentFilename := n\<rparr>) = settings_ok st"
  by (simp add: settings_ok_def)

lemma reset_settings_key [simp]:
  "SETTINGS_KEY (sessionStorage (reset_document s)) = SETTINGS_KEY (sessionStorage s)"
  "settings_ok (settings (reset_document s)) = settings_ok (settings s)"
  by (simp_all add: reset_document_def)

lemma autoSave_settings_key [simp]:
  "SETTINGS_KEY (sessionStorage (autoSave ok s)) = SETTINGS_KEY (sessionStorage s)"
  by (simp add: autoSave_def)

lemma handle_settings:
  "event_ok e \<Longrightarrow> settings_ok (settings s) \<Longrightarrow>
     settings_ok (settings (handle e s))
     \<and> SETTINGS_KEY (sessionStorage (handle e s)) = SETTINGS_KEY (sessionStorage s)"
proof (cases e)
  case (KeyDown k ok)
  then show "settings_ok (settings s) \<Longrightarrow> ?thesis"
    by (simp add: handleKeyDown_def handleNew_def handleOpen_def handleSaveAs_def Let_def)
next
  case (ReaderDone n acc)
  then show "settings_ok (settings s) \<Longrightarrow> ?thesis"
    by (simp add: reader_done_def reader_onload_def reader_onerror_def Let_def
          split: option.splits)
next
  case (Drop files)
  then show "settings_ok (settings s) \<Longrightarrow> ?thesis"
    by (simp add: handleDrop_def readFile_def Let_def split: option.splits)
next
  case (FileSelect fo)
  then show "settings_ok (settings s) \<Longrightarrow> ?thesis"
    by (simp add: handleFileSelect_def readFile_def split: option.splits)
next
  case UnsavedDontSave
  then show "settings_ok (settings s) \<Longrightarrow> ?thesis"
    by (simp add: unsaved_dont_save_def run_action_any Let_def split: option.splits)
next
  case (UnsavedSave ok)
  then show "settings_ok (settings s) \<Longrightarrow> ?thesis"
    by (simp add: unsaved_save_def Let_def split: option.splits)
next
  case DeferredFire
  then show "settings_ok (settings s) \<Longrightarrow> ?thesis"
    by (simp add: deferred_fire_def run_action_any split: list.splits)
next
  case (FontSizeChange v)
  then show "event_ok e \<Longrightarrow> settings_ok (settings s) \<Longrightarrow> ?thesis"
    by (simp add: onFontSizeChange_def settings_ok_def slider_emits_def)
next
  case (LeftMarginChange v)
  then show "event_ok e \<Longrightarrow> settings_ok (settings s) \<Longrightarrow> ?thesis"
    by (simp add: onLeftMarginChange_def settings_ok_def slider_emits_def)
next
  case (RightMarginChange v)
  then show "event_ok e \<Longrightarrow> settings_ok (settings s) \<Longrightarrow> ?thesis"
    by (simp add: onRightMarginChange_def settings_ok_def slider_emits_def)
next
  case ThemeToggle
  then show "settings_ok (settings s) \<Longrightarrow> ?thesis"
    by (simp add: onThemeToggle_def settings_ok_def)
next
  case WordCountToggle
  then show "settings_ok (settings s) \<Longrightarrow> ?thesis"
    by (simp add: onWordCountToggle_def settings_ok_def)
next
  case CountDisplayToggle
  then show "settings_ok (settings s) \<Longrightarrow> ?thesis"
    by (simp add: onCountDisplayToggle_def settings_ok_def)
qed (simp_all add: handleChange_def handlePaste_def handleSelectionChange_def handleNew_def
       handleOpen_def handleSaveAs_def setSaveFilename_def
       setShowSaveDialog_def downloadFile_def unsaved_dismiss_def saving_indicator_off_def
       Let_def)

lemma effects_settings_key:
  "SETTINGS_KEY (sessionStorage (effects p s)) =
     (if settings s \<noteq> settings p then Some (stringify (settings s))
      else SETTINGS_KEY (sessionStorage s))"
  by (simp add: effects_def settings_effect_def Let_def)

lemma mirrored_effects:
  assumes "mirrored p" and "settings_ok (settings s)"
    and "SETTINGS_KEY (sessionStorage s) = SETTINGS_KEY (sessionStorage p)"
  shows "mirrored (effects p s)"
  using assms by (auto simp: mirrored_def effects_settings_key)

lemma mirrored_mount:
  assumes "SETTINGS_KEY st = None \<or> (\<exists>x. settings_ok x \<and> SETTINGS_KEY st = Some (stringify x))"
  shows "mirrored (mount st t tr)"
proof -
  define s0 where "s0 = initial st t tr"
  define s1 where "s1 = load_effect s0"
  define s2 where "s2 = s1\<lparr>sessionStorage := (sessionStorage s1)\<lparr>SETTINGS_KEY := Some (stringify (settings s0))\<rparr>\<rparr>"
  have m: "mount st t tr = effects s0 s2"
    by (simp add: mount_def s0_def s1_def s2_def Let_def)
  have d: "settings s0 = default_settings" "sessionStorage s0 = st"
    by (simp_all add: s0_def initial_def)
  have dok: "settings_ok default_settings"
    by (simp add: settings_ok_def default_settings_def)
  have k: "SETTINGS_KEY (sessionStorage s2) = Some (stringify (settings s0))"
    by (simp add: s2_def)
  have ls: "settings s1 = (case SETTINGS_KEY st of None \<Rightarrow> default_settings
                           | Some p \<Rightarrow> spread default_settings p)"
    using d by (simp add: s1_def load_effect_def Let_def split: option.splits)
  have ok2: "settings_ok (settings s2)"
    using assms dok by (auto simp: s2_def ls spread_stringify)
  have "SETTINGS_KEY (sessionStorage (effects s0 s2)) = Some (stringify (settings s2))"
    using k by (auto simp: effects_settings_key)
  with ok2 show ?thesis
    by (simp add: m mirrored_def)
qed

lemma mirrored_step:
  assumes "mirrored s" and "event_ok e"
  shows "mirrored (step s e)"
proof (cases "\<exists>u. e = Reload u")
  case True
  then obtain u where e: "e = Reload u" by blast
  have "mirrored (mount ((sessionStorage s)\<lparr>STORAGE_KEY := x\<rparr>) t tr)" for x t tr
    using assms(1) by (intro mirrored_mount) (auto simp: mirrored_def)
  from this [of "STORAGE_KEY (sessionStorage s)"] this [of None]
  show ?thesis
    by (simp add: e step_def)
next
  case False
  then have s: "step s e = effects s (handle e s)"
    by (intro step_handle) simp
  from handle_settings [OF assms(2), of s] assms(1)
  show ?thesis
    unfolding s by (intro mirrored_effects) (simp_all add: mirrored_def)
qed

lemma fire_settings:
  "settings (fire ok tm s) = settings s
   \<and> SETTINGS_KEY (sessionStorage (fire ok tm s)) = SETTINGS_KEY (sessionStorage s)"
  by (simp add: fire_def Let_def effects_settings_key)

lemma tick_settings:
  "settings (tick ok t s) = settings s
   \<and> SETTINGS_KEY (sessionStorage (tick ok t s)) = SETTINGS_KEY (sessionStorage s)"
proof (induction ok t s rule: tick.induct)
  case (1 ok t s)
  show ?case
  proof (cases "due t (timeouts s)")
    case None
    then show ?thesis by (subst tick.simps, simp)+
  next
    case (Some tm)
    have e: "tick ok t s = tick ok t (fire ok tm s)"
      using Some by (subst tick.simps) simp
    from "1.IH" [OF Some] fire_settings [of ok tm s] show ?thesis
      unfolding e by simp
  qed
qed

lemma mirrored_exec: "mirrored s \<Longrightarrow> list_all input_ok run \<Longrightarrow> mirrored (exec s run)"
proof (induction run arbitrary: s)
  case Nil
  then show ?case by simp
next
  case (Cons i run)
  show ?case
  proof (cases i)
    case (Ev e)
    with Cons.prems have "mirrored (step s e)"
      by (intro mirrored_step) simp_all
    with Cons Ev show ?thesis by simp
  next
    case (Wait d ok)
    from Cons.prems(1) tick_settings [of ok "clock s + d" s]
    have "mirrored (tick ok (clock s + d) s)"
      by (simp add: mirrored_def)
    with Cons Wait show ?thesis by simp
  qed
qed

lemma mirrored_fresh: "mirrored fresh"
  unfolding fresh_def by (intro mirrored_mount) simp

lemma reload_settings: "mirrored s \<Longrightarrow> settings (step s (Reload u)) = settings s"
proof -
  assume m: "mirrored s"
  have "settings (mount st t tr) = x" if "SETTINGS_KEY st = Some (stringify x)" for st t tr x
    using that
    by (simp add: mount_def load_effect_def initial_def spread_stringify Let_def
          split: option.splits)
  with m show ?thesis
    by (simp add: step_def mirrored_def)
qed

subsection \<open>Saving an empty text\<close>

text \<open>
  C10. When the text is empty every save attempt is a no-op. \<open>autoSave\<close>, which the
  timer and the explicit save command (the platform modifier with \<open>s\<close>) both run,
  returns the state as it is; the timer effect arms no timeout; and whatever timeouts
  are live, letting time pass writes nothing to the store, leaves the dirty flag as it
  was and makes no call that leaves the component.
\<close>

theorem empty_text_never_saved:
  "content s = [] \<Longrightarrow>
     autoSave ok s = s
     \<and> timeouts (timer_effect s) = timeouts (clearTimer s)
     \<and> (key e \<noteq> ''Tab'' \<and> cmdOrCtrl e \<and> toLowerCase (key e) = ''s'' \<and> \<not> shiftKey e
          \<longrightarrow> step s (KeyDown e ok) = s)
     \<and> sessionStorage (tick ok t s) = sessionStorage s
     \<and> isSaved (tick ok t s) = isSaved s
     \<and> trace (tick ok t s) = trace s"
  using tick_empty [of s ok t]
  by (simp add: autoSave_def timer_effect_def step_def handleKeyDown_def effects_refl Let_def)

text \<open>
  The theorem at a document that was typed into and then emptied, which is dirty: the
  save command and ten seconds of waiting leave it dirty and the store without it.
\<close>

theorem empty_text_never_saved_witness:
  "content emptied = [] \<and> \<not> isSaved emptied
   \<and> autoSave True emptied = emptied
   \<and> step emptied (KeyDown ctrl_s True) = emptied
   \<and> sessionStorage (tick True 10000 emptied) = sessionStorage emptied
   \<and> \<not> isSaved (tick True 10000 emptied)
   \<and> trace (tick True 10000 emptied) = trace emptied"
  using emptied_facts
    empty_text_never_saved [where s = emptied and e = ctrl_s and ok = True and t = 10000]
  by (simp add: ctrl_s_def toLowerCase_def)

subsection \<open>A store that refuses the write\<close>

text \<open>
  C8. When \<open>sessionStorage.setItem\<close> throws during a save attempt, \<open>autoSave\<close>
  catches it: the only call that leaves the component is \<open>console.error\<close> (no alert),
  the dirty flag and the store stay as they were, and the state differs from the one
  before only in the saving indicator. So the next explicit save, and the next timeout
  that fires, attempt the write again, and it goes through when the store accepts it.
\<close>

theorem store_failure_keeps_dirty:
  "autoSaveEnabled s \<Longrightarrow> content s \<noteq> [] \<Longrightarrow> blob_size (content s) \<le> MAX_FILE_SIZE \<Longrightarrow>
     autoSave False s = s\<lparr>isAutoSaving := False, trace := trace s @ [ConsoleError]\<rparr>
     \<and> isSaved (autoSave False s) = isSaved s
     \<and> sessionStorage (autoSave False s) = sessionStorage s
     \<and> autoSave True (autoSave False s) =
         s\<lparr>isAutoSaving := True,
           sessionStorage := (sessionStorage s)\<lparr>STORAGE_KEY := Some (content s)\<rparr>,
           isSaved := True,
           trace := trace s @ [ConsoleError, SetItem (content s)]\<rparr>
     \<and> isSaved (fire True tm (autoSave False s))
     \<and> STORAGE_KEY (sessionStorage (fire True tm (autoSave False s))) = Some (content s)"
  by (simp add: autoSave_def fire_def effects_def timer_effect_def clearTimer_def
        settings_effect_def Let_def split: option.splits)

text \<open>The theorem at the document into which \<open>a\<close> was typed.\<close>

theorem store_failure_keeps_dirty_witness:
  "autoSaveEnabled typed_a \<and> content typed_a \<noteq> [] \<and> blob_size (content typed_a) \<le> MAX_FILE_SIZE
   \<and> \<not> isSaved (autoSave False typed_a)
   \<and> trace (autoSave False typed_a) = [ConsoleError]
   \<and> STORAGE_KEY (sessionStorage (autoSave False typed_a)) = None
   \<and> trace (autoSave True (autoSave False typed_a)) = [ConsoleError, SetItem [0x61]]
   \<and> isSaved (fire True (1, 3000) (autoSave False typed_a))"
proof -
  have h: "autoSaveEnabled typed_a" "content typed_a \<noteq> []"
    "blob_size (content typed_a) \<le> MAX_FILE_SIZE"
    using typed_a_facts by (simp_all add: unit_size_def MAX_FILE_SIZE_def)
  note t = store_failure_keeps_dirty [OF h, of "(1, 3000)"]
  from t have a: "isSaved (autoSave False typed_a) = isSaved typed_a"
    and b: "sessionStorage (autoSave False typed_a) = sessionStorage typed_a"
    and c: "isSaved (fire True (1, 3000) (autoSave False typed_a))"
    by blast+
  from t have "trace (autoSave False typed_a)
      = trace (typed_a\<lparr>isAutoSaving := False, trace := trace typed_a @ [ConsoleError]\<rparr>)"
    by (intro arg_cong [where f = trace]) blast
  then have d: "trace (autoSave False typed_a) = [ConsoleError]"
    using typed_a_facts by simp
  from t have "trace (autoSave True (autoSave False typed_a))
      = trace (typed_a\<lparr>isAutoSaving := True,
           sessionStorage := (sessionStorage typed_a)\<lparr>STORAGE_KEY := Some (content typed_a)\<rparr>,
           isSaved := True,
           trace := trace typed_a @ [ConsoleError, SetItem (content typed_a)]\<rparr>)"
    by (intro arg_cong [where f = trace]) blast
  then have e: "trace (autoSave True (autoSave False typed_a)) = [ConsoleError, SetItem [0x61]]"
    using typed_a_facts by simp
  show ?thesis
    using h a b c d e typed_a_facts by simp
qed

subsection \<open>Opening a file\<close>

text \<open>
  C6. A file whose size exceeds 5 MiB, chosen in the file picker or found by a drop as
  the first text file, raises an alert and nothing else: no reader is started, and text,
  filename, dirty flag, welcome state and store are unchanged (a drop also ends the
  drag highlight).
\<close>

theorem oversize_file_rejected:
  "file_size f > MAX_FILE_SIZE \<Longrightarrow>
     step s (FileSelect (Some f)) = s\<lparr>trace := trace s @ [Alert]\<rparr>
     \<and> (find is_text_file files = Some f \<longrightarrow>
          step s (Drop files) = s\<lparr>isDragOver := False, trace := trace s @ [Alert]\<rparr>)"
  by (simp add: step_def handleFileSelect_def handleDrop_def readFile_def effects_def Let_def)

text \<open>
  The theorem at a file of 5 MiB and one byte, chosen while the document holds unsaved
  text, and dropped together with a file that is not a text file.
\<close>

theorem oversize_file_rejected_witness:
  "file_size huge_txt > MAX_FILE_SIZE
   \<and> step typed_a (FileSelect (Some huge_txt)) = typed_a\<lparr>trace := [Alert]\<rparr>
   \<and> step typed_a (Drop [notes_md\<lparr>file_name := js ''a.png''\<rparr>, huge_txt])
        = typed_a\<lparr>isDragOver := False, trace := [Alert]\<rparr>"
proof -
  have h: "file_size huge_txt > MAX_FILE_SIZE"
    by (simp add: huge_txt_def MAX_FILE_SIZE_def)
  have d: "find is_text_file [notes_md\<lparr>file_name := js ''a.png''\<rparr>, huge_txt] = Some huge_txt"
    by (simp add: is_text_file_def notes_md_def huge_txt_def js_def suffix_def)
  from oversize_file_rejected [OF h, of typed_a "[notes_md\<lparr>file_name := js ''a.png''\<rparr>, huge_txt]"] h d
    typed_a_facts
  show ?thesis by simp
qed

text \<open>
  C7, as the claim states it, fails when the store refuses the write: \<open>onload\<close> calls
  \<open>setItem\<close> unguarded. The file \<open>notes.md\<close> is opened in a fresh tab and read in
  full; the document is replaced and counts as saved, but the store holds no text, and
  no timeout is armed that would write it later.
\<close>

theorem open_refused_counterexample:
  "content (exec fresh [Ev (FileSelect (Some notes_md)), Ev (ReaderDone 0 False), Wait 10000 True])
     = js ''# Title''
   \<and> isSaved (exec fresh [Ev (FileSelect (Some notes_md)), Ev (ReaderDone 0 False), Wait 10000 True])
   \<and> STORAGE_KEY (sessionStorage
        (exec fresh [Ev (FileSelect (Some notes_md)), Ev (ReaderDone 0 False), Wait 10000 True]))
     = None"
  by (simp add: run_defs notes_md_def handleFileSelect_def readFile_def reader_done_def
        reader_onload_def)

text \<open>
  C7, amended. A file of at most 5 MiB, chosen in the file picker or found by a drop as
  the first text file, starts a read and changes nothing else. When the read of such a
  file completes with a text, the document is replaced in that very step: the text is
  the content, the file's name is the filename, the welcome state is cleared and the
  dirty flag is false. If the store accepts the write, the text is in the store at once,
  with no time passing, and that write is the only call that leaves the component.
\<close>

theorem accepted_file_replaces_document:
  assumes "file_size f \<le> MAX_FILE_SIZE" and "file_text f = Some text"
  shows "step s (FileSelect (Some f)) = s\<lparr>readers := readers s @ [f]\<rparr>
     \<and> (find is_text_file files = Some f \<longrightarrow>
          step s (Drop files) = s\<lparr>isDragOver := False, readers := readers s @ [f]\<rparr>)
     \<and> (n < length (readers r) \<and> readers r ! n = f \<longrightarrow>
          content (step r (ReaderDone n acc)) = text
          \<and> currentFilename (settings (step r (ReaderDone n acc))) = file_name f
          \<and> \<not> showWelcome (step r (ReaderDone n acc))
          \<and> isSaved (step r (ReaderDone n acc))
          \<and> clock (step r (ReaderDone n acc)) = clock r
          \<and> (acc \<longrightarrow>
                STORAGE_KEY (sessionStorage (step r (ReaderDone n acc))) = Some text
                \<and> trace (step r (ReaderDone n acc)) = trace r @ [SetItem text]))"
proof -
  have a: "step s (FileSelect (Some f)) = s\<lparr>readers := readers s @ [f]\<rparr>"
    using assms(1) by (simp add: step_def handleFileSelect_def readFile_def effects_def Let_def)
  have b: "step s (Drop files) = s\<lparr>isDragOver := False, readers := readers s @ [f]\<rparr>"
    if "find is_text_file files = Some f"
    using that assms(1) by (simp add: step_def handleDrop_def readFile_def effects_def Let_def)
  have c: "step r (ReaderDone n b)
      = effects r (reader_onload f text b
          (r\<lparr>readers := take n (readers r) @ drop (Suc n) (readers r)\<rparr>))"
    if "n < length (readers r)" "readers r ! n = f" for b
    using that assms(2) by (simp add: step_def reader_done_def Let_def)
  show ?thesis
    by (simp add: a b c reader_onload_def Let_def)
qed

text \<open>
  The theorem at the file \<open>notes.md\<close> with the text \<open># Title\<close>, opened in a fresh
  tab whose store accepts the write.
\<close>

theorem accepted_file_replaces_document_witness:
  "file_size notes_md \<le> MAX_FILE_SIZE \<and> file_text notes_md = Some (js ''# Title'')
   \<and> step fresh (FileSelect (Some notes_md)) = fresh\<lparr>readers := [notes_md]\<rparr>
   \<and> step fresh (Drop [notes_md]) = fresh\<lparr>isDragOver := False, readers := [notes_md]\<rparr>
   \<and> content (step (fresh\<lparr>readers := [notes_md]\<rparr>) (ReaderDone 0 True)) = js ''# Title''
   \<and> currentFilename (settings (step (fresh\<lparr>readers := [notes_md]\<rparr>) (ReaderDone 0 True)))
        = js ''notes.md''
   \<and> \<not> showWelcome (step (fresh\<lparr>readers := [notes_md]\<rparr>) (ReaderDone 0 True))
   \<and> isSaved (step (fresh\<lparr>readers := [notes_md]\<rparr>) (ReaderDone 0 True))
   \<and> STORAGE_KEY (sessionStorage (step (fresh\<lparr>readers := [notes_md]\<rparr>) (ReaderDone 0 True)))
        = Some (js ''# Title'')
   \<and> trace (step (fresh\<lparr>readers := [notes_md]\<rparr>) (ReaderDone 0 True))
        = [SetItem (js ''# Title'')]
   \<and> clock (step (fresh\<lparr>readers := [notes_md]\<rparr>) (ReaderDone 0 True)) = 0"
proof -
  have h: "file_size notes_md \<le> MAX_FILE_SIZE" "file_text notes_md = Some (js ''# Title'')"
    by (simp_all add: notes_md_def MAX_FILE_SIZE_def)
  have d: "find is_text_file [notes_md] = Some notes_md"
    by (simp add: is_text_file_def notes_md_def js_def suffix_def)
  from accepted_file_replaces_document [OF h, where s = fresh and files = "[notes_md]"
      and r = "fresh\<lparr>readers := [notes_md]\<rparr>" and n = 0 and acc = True] h d fresh_facts
  show ?thesis
    by (simp add: notes_md_def)
qed

subsection \<open>A text over the size limit\<close>

text \<open>
  C2. A save attempt on a text whose encoded size exceeds 5 MiB, fired by the timer
  (\<open>fire\<close>) or asked for by the save hotkey, writes nothing to the store and leaves
  autosave disabled. From the state it leaves, whatever events and waits follow short of
  a reload, autosave stays disabled, \<open>autoSave\<close> returns the state as it is, and
  letting time pass changes neither the store nor the trace: no automatic save writes
  again, whatever the text has become.
\<close>

theorem oversize_disables_autosave:
  assumes "blob_size (content s) > MAX_FILE_SIZE" and "\<not> list_ex is_reload is"
  shows "sessionStorage (autoSave ok s) = sessionStorage s
     \<and> \<not> autoSaveEnabled (autoSave ok s)
     \<and> trace (autoSave ok s) = (if autoSaveEnabled s then trace s @ [ConsoleWarn] else trace s)
     \<and> sessionStorage (fire ok tm s) = sessionStorage s
     \<and> sessionStorage (step s (KeyDown ctrl_s ok)) = sessionStorage s
     \<and> \<not> autoSaveEnabled (exec (fire ok tm s) is)
     \<and> \<not> autoSaveEnabled (exec (step s (KeyDown ctrl_s ok)) is)
     \<and> autoSave ok' (exec (fire ok tm s) is) = exec (fire ok tm s) is
     \<and> autoSave ok' (exec (step s (KeyDown ctrl_s ok)) is) = exec (step s (KeyDown ctrl_s ok)) is
     \<and> sessionStorage (tick ok' t (exec (fire ok tm s) is)) = sessionStorage (exec (fire ok tm s) is)
     \<and> trace (tick ok' t (exec (fire ok tm s) is)) = trace (exec (fire ok tm s) is)
     \<and> sessionStorage (tick ok' t (exec (step s (KeyDown ctrl_s ok)) is))
          = sessionStorage (exec (step s (KeyDown ctrl_s ok)) is)
     \<and> trace (tick ok' t (exec (step s (KeyDown ctrl_s ok)) is))
          = trace (exec (step s (KeyDown ctrl_s ok)) is)"
proof -
  have ne: "content s \<noteq> []"
    using assms(1) by auto
  have a: "sessionStorage (autoSave ok s) = sessionStorage s"
    "\<not> autoSaveEnabled (autoSave ok s)"
    "trace (autoSave ok s) = (if autoSaveEnabled s then trace s @ [ConsoleWarn] else trace s)"
    "settings (autoSave ok s) = settings s"
    using assms(1) ne by (simp_all add: autoSave_def)
  have a0: "sessionStorage (autoSave ok s0) = sessionStorage s0"
    "\<not> autoSaveEnabled (autoSave ok s0)" "settings (autoSave ok s0) = settings s0"
    if "content s0 = content s" for s0
    using assms(1) ne that by (simp_all add: autoSave_def)
  have f: "sessionStorage (fire ok tm s) = sessionStorage s" "\<not> autoSaveEnabled (fire ok tm s)"
    by (simp_all add: fire_def Let_def effects_store_same a0)
  have k: "step s (KeyDown ctrl_s ok) = effects s (autoSave ok s)"
    by (simp add: step_def handleKeyDown_def ctrl_s_def toLowerCase_def)
  have g: "sessionStorage (step s (KeyDown ctrl_s ok)) = sessionStorage s"
    "\<not> autoSaveEnabled (step s (KeyDown ctrl_s ok))"
    by (simp_all add: k effects_store_same a)
  from a f(1) g(1) disabled_run [OF f(2) assms(2), of ok' t] disabled_run [OF g(2) assms(2), of ok' t]
  show ?thesis by simp
qed

text \<open>
  The theorem at the oversized document: its timeout fires, the text is then replaced
  by \<open>a\<close>, and no later wait writes it.
\<close>

theorem oversize_disables_autosave_witness:
  "blob_size (content oversized) > MAX_FILE_SIZE
   \<and> \<not> list_ex is_reload [Ev (Change (js ''a'') 1), Wait 5000 True]
   \<and> STORAGE_KEY (sessionStorage (autoSave True oversized)) = None
   \<and> \<not> autoSaveEnabled (autoSave True oversized)
   \<and> trace (autoSave True oversized) = [ConsoleWarn]
   \<and> STORAGE_KEY (sessionStorage (fire True (1, 3000) oversized)) = None
   \<and> \<not> autoSaveEnabled (exec (fire True (1, 3000) oversized) [Ev (Change (js ''a'') 1), Wait 5000 True])
   \<and> sessionStorage (tick True 20000 (exec (fire True (1, 3000) oversized) [Ev (Change (js ''a'') 1), Wait 5000 True]))
      = sessionStorage (exec (fire True (1, 3000) oversized) [Ev (Change (js ''a'') 1), Wait 5000 True])"
proof -
  have h1: "blob_size (content oversized) > MAX_FILE_SIZE"
    using oversized_facts by (simp add: blob_size_replicate MAX_FILE_SIZE_def)
  have h2: "\<not> list_ex is_reload [Ev (Change (js ''a'') 1), Wait 5000 True]"
    by simp
  note t = oversize_disables_autosave [OF h1 h2, where ok = True and tm = "(1, 3000)"
      and ok' = True and t = 20000]
  from t have a: "sessionStorage (autoSave True oversized) = sessionStorage oversized"
    and b: "\<not> autoSaveEnabled (autoSave True oversized)"
    and c: "trace (autoSave True oversized)
        = (if autoSaveEnabled oversized then trace oversized @ [ConsoleWarn] else trace oversized)"
    and d: "sessionStorage (fire True (1, 3000) oversized) = sessionStorage oversized"
    and e: "\<not> autoSaveEnabled (exec (fire True (1, 3000) oversized) [Ev (Change (js ''a'') 1), Wait 5000 True])"
    and f: "sessionStorage (tick True 20000 (exec (fire True (1, 3000) oversized) [Ev (Change (js ''a'') 1), Wait 5000 True]))
      = sessionStorage (exec (fire True (1, 3000) oversized) [Ev (Change (js ''a'') 1), Wait 5000 True])"
    by blast+
  show ?thesis
    using h1 h2 a b c d e f oversized_facts by (simp only:) simp
qed

subsection \<open>Debounce\<close>

text \<open>
  C3, as the claim states it, fails: two mutations within a second of each other, the
  second of which empties the text, arm no timeout that survives, and however long one
  waits nothing is written to the store.
\<close>

theorem debounce_counterexample:
  "trace (exec fresh [Ev (Change (js ''a'') 1), Wait 1000 True, Ev (Change [] 0), Wait 10000 True]) = []
   \<and> STORAGE_KEY (sessionStorage
        (exec fresh [Ev (Change (js ''a'') 1), Wait 1000 True, Ev (Change [] 0), Wait 10000 True])) = None"
  by (simp add: run_defs)

text \<open>
  C3, amended. Take a state with at most one live timeout (as every state of a run is)
  and autosave enabled, and a sequence of textarea changes, each changing the text and
  each after the first less than the debounce delay after the one before. If the final
  text is not empty and at most 5 MiB, and the store accepts the write, then once the
  delay has passed after the last change exactly one call has left the component: the
  write of the final text. And in every run from such a state at most one timeout is
  live at any time.
\<close>

theorem debounced_single_write:
  assumes "one_timer s" and "autoSaveEnabled s" and "v \<noteq> content s" and "spaced v ms"
    and "final_text v ms \<noteq> []" and "blob_size (final_text v ms) \<le> MAX_FILE_SIZE"
    and "AUTO_SAVE_DELAY \<le> d"
  shows "trace (exec s (Ev (Change v sel) # mutations ms @ [Wait d True]))
        = trace s @ [SetItem (final_text v ms)]
     \<and> STORAGE_KEY (sessionStorage (exec s (Ev (Change v sel) # mutations ms @ [Wait d True])))
        = Some (final_text v ms)
     \<and> isSaved (exec s (Ev (Change v sel) # mutations ms @ [Wait d True]))
     \<and> timeouts (exec s (Ev (Change v sel) # mutations ms @ [Wait d True])) = []
     \<and> length (timeouts (exec s run)) \<le> 1"
proof -
  define s1 where "s1 = step s (Change v sel)"
  from change_arms [OF assms(1-3), of sel]
  have a1: "armed s1" and c1: "content s1 = v" and t1: "trace s1 = trace s"
    by (simp_all add: s1_def)
  define s2 where "s2 = exec s1 (mutations ms)"
  from mutations_run [of s1 ms] a1 c1 assms(4) t1
  have a2: "armed s2" and c2: "content s2 = final_text v ms" and t2: "trace s2 = trace s"
    by (simp_all add: s2_def)
  have r: "exec s (Ev (Change v sel) # mutations ms @ [Wait d True]) = tick True (clock s2 + d) s2"
    by (simp add: exec_append s1_def s2_def)
  have ne: "content s2 \<noteq> []" and fits: "blob_size (content s2) \<le> MAX_FILE_SIZE"
    using assms(5,6) by (simp_all add: c2)
  from armed_fires [OF a2 ne fits assms(7)] c2 t2
  have "trace (tick True (clock s2 + d) s2) = trace s @ [SetItem (final_text v ms)]
     \<and> STORAGE_KEY (sessionStorage (tick True (clock s2 + d) s2)) = Some (final_text v ms)
     \<and> isSaved (tick True (clock s2 + d) s2)
     \<and> timeouts (tick True (clock s2 + d) s2) = []"
    by simp
  moreover have "length (timeouts (exec s run)) \<le> 1"
    using one_timer_exec [OF assms(1), of run] by (simp add: one_timer_def)
  ultimately show ?thesis
    unfolding r by simp
qed

text \<open>
  The theorem in a fresh tab, for the texts \<open>a\<close>, \<open>ab\<close>, \<open>abc\<close> typed 1000 ms and
  2999 ms apart.
\<close>

theorem debounced_single_write_witness:
  "one_timer fresh \<and> autoSaveEnabled fresh \<and> js ''a'' \<noteq> content fresh
   \<and> spaced (js ''a'') [(1000, js ''ab'', 2), (2999, js ''abc'', 3)]
   \<and> final_text (js ''a'') [(1000, js ''ab'', 2), (2999, js ''abc'', 3)] = js ''abc''
   \<and> blob_size (js ''abc'') \<le> MAX_FILE_SIZE \<and> AUTO_SAVE_DELAY \<le> 3000
   \<and> trace (exec fresh (Ev (Change (js ''a'') 1)
          # mutations [(1000, js ''ab'', 2), (2999, js ''abc'', 3)] @ [Wait 3000 True]))
        = [SetItem (js ''abc'')]
   \<and> STORAGE_KEY (sessionStorage (exec fresh (Ev (Change (js ''a'') 1)
          # mutations [(1000, js ''ab'', 2), (2999, js ''abc'', 3)] @ [Wait 3000 True])))
        = Some (js ''abc'')
   \<and> isSaved (exec fresh (Ev (Change (js ''a'') 1)
          # mutations [(1000, js ''ab'', 2), (2999, js ''abc'', 3)] @ [Wait 3000 True]))
   \<and> length (timeouts (exec fresh [Ev (Change (js ''a'') 1), Wait 1000 True,
          Ev (Change (js ''ab'') 2)])) \<le> 1"
proof -
  have h: "one_timer fresh" "autoSaveEnabled fresh" "js ''a'' \<noteq> content fresh"
    "spaced (js ''a'') [(1000, js ''ab'', 2), (2999, js ''abc'', 3)]"
    using fresh_facts by (simp_all add: one_timer_def js_def AUTO_SAVE_DELAY_def)
  have f: "final_text (js ''a'') [(1000, js ''ab'', 2), (2999, js ''abc'', 3)] = js ''abc''"
    by simp
  have g: "final_text (js ''a'') [(1000, js ''ab'', 2), (2999, js ''abc'', 3)] \<noteq> []"
    "blob_size (final_text (js ''a'') [(1000, js ''ab'', 2), (2999, js ''abc'', 3)]) \<le> MAX_FILE_SIZE"
    "AUTO_SAVE_DELAY \<le> 3000"
    by (simp_all add: js_def unit_size_def is_high_surrogate_def MAX_FILE_SIZE_def AUTO_SAVE_DELAY_def)
  note t = debounced_single_write [OF h g, where sel = 1
      and run = "[Ev (Change (js ''a'') 1), Wait 1000 True, Ev (Change (js ''ab'') 2)]"]
  show ?thesis
    using h f g t fresh_facts by (simp only:) simp
qed

subsection \<open>The unsaved-changes guard\<close>

text \<open>
  C1, as the claim states it, fails for Open: with unsaved text \<open>a\<close> in the
  document, choosing a file asks for no confirmation, and when the read completes the
  text is replaced.
\<close>

theorem open_counterexample:
  "\<not> isSaved typed_a \<and> content typed_a = js ''a''
   \<and> \<not> showUnsavedDialog (step typed_a (FileSelect (Some notes_md)))
   \<and> pendingAction (step typed_a (FileSelect (Some notes_md))) = None
   \<and> content (exec typed_a [Ev (FileSelect (Some notes_md)), Ev (ReaderDone 0 True)]) = js ''# Title''
   \<and> \<not> showUnsavedDialog (exec typed_a [Ev (FileSelect (Some notes_md)), Ev (ReaderDone 0 True)])"
  by (simp add: typed_a_def run_defs notes_md_def handleFileSelect_def readFile_def
        reader_done_def reader_onload_def)

text \<open>
  C1, amended. In a state that is dirty with a text that is not empty, New (the button
  or the hotkey) changes nothing but to store the reset as the pending action and to
  open the confirmation dialog. The reset runs only when the user resolves the dialog:
  at once on \<open>Don't Save\<close>; on \<open>Save\<close> after \<open>autoSave\<close>, by the deferred
  callback; dismissing the dialog runs nothing. With an empty text New resets at once
  and opens no dialog, whatever the dirty flag. Open, by the file picker or a drop,
  never opens the dialog nor stores a pending action.
\<close>

theorem new_asks_before_reset:
  "(\<not> isSaved s \<and> content s \<noteq> [] \<longrightarrow>
      step s ClickNew = s\<lparr>pendingAction := Some ResetDocument, showUnsavedDialog := True\<rparr>
      \<and> step (step s ClickNew) UnsavedDismiss
          = s\<lparr>pendingAction := Some ResetDocument, showUnsavedDialog := False\<rparr>
      \<and> content (step (step s ClickNew) UnsavedDontSave) = []
      \<and> showWelcome (step (step s ClickNew) UnsavedDontSave)
      \<and> isSaved (step (step s ClickNew) UnsavedDontSave)
      \<and> STORAGE_KEY (sessionStorage (step (step s ClickNew) UnsavedDontSave)) = None
      \<and> pendingAction (step (step s ClickNew) UnsavedDontSave) = None
      \<and> content (step (step s ClickNew) (UnsavedSave ok)) = content s
      \<and> deferred (step (step s ClickNew) (UnsavedSave ok)) = deferred s @ [ResetDocument]
      \<and> content (step (step (step s ClickNew) (UnsavedSave ok)) DeferredFire) = []
      \<and> STORAGE_KEY (sessionStorage (step (step (step s ClickNew) (UnsavedSave ok)) DeferredFire))
          = None)
   \<and> (content s = [] \<longrightarrow>
      content (step s ClickNew) = [] \<and> showWelcome (step s ClickNew) \<and> isSaved (step s ClickNew)
      \<and> STORAGE_KEY (sessionStorage (step s ClickNew)) = None
      \<and> currentFilename (settings (step s ClickNew)) = js ''document.txt''
      \<and> showUnsavedDialog (step s ClickNew) = showUnsavedDialog s
      \<and> pendingAction (step s ClickNew) = pendingAction s)
   \<and> (key e \<noteq> ''Tab'' \<and> cmdOrCtrl e \<and> toLowerCase (key e) = ''n'' \<longrightarrow>
      step s (KeyDown e ok) = step s ClickNew)
   \<and> showUnsavedDialog (step s (FileSelect fo)) = showUnsavedDialog s
   \<and> pendingAction (step s (FileSelect fo)) = pendingAction s
   \<and> showUnsavedDialog (step s (Drop files)) = showUnsavedDialog s
   \<and> pendingAction (step s (Drop files)) = pendingAction s
   \<and> showUnsavedDialog (step s (ReaderDone n acc)) = showUnsavedDialog s
   \<and> pendingAction (step s (ReaderDone n acc)) = pendingAction s"
proof -
  define g where "g = s\<lparr>pendingAction := Some ResetDocument, showUnsavedDialog := True\<rparr>"
  have ask: "step s ClickNew = g" if "\<not> isSaved s" "content s \<noteq> []"
    using that by (simp add: step_def handleNew_def effects_def g_def)
  have dis: "step g UnsavedDismiss = s\<lparr>pendingAction := Some ResetDocument, showUnsavedDialog := False\<rparr>"
    by (simp add: step_def unsaved_dismiss_def effects_def g_def)
  have dont: "content (step g UnsavedDontSave) = []" "showWelcome (step g UnsavedDontSave)"
    "isSaved (step g UnsavedDontSave)"
    "STORAGE_KEY (sessionStorage (step g UnsavedDontSave)) = None"
    "pendingAction (step g UnsavedDontSave) = None"
    by (simp_all add: step_def unsaved_dont_save_def g_def)
  have sv: "content (step g (UnsavedSave ok)) = content s"
    "deferred (step g (UnsavedSave ok)) = deferred s @ [ResetDocument]"
    by (simp_all add: step_def unsaved_save_def g_def Let_def)
  have df: "content (step r DeferredFire) = [] \<and> STORAGE_KEY (sessionStorage (step r DeferredFire)) = None"
    if "deferred r \<noteq> []" for r
    using that by (cases "deferred r") (simp_all add: step_def deferred_fire_def run_action_any)
  have sv2: "content (step (step g (UnsavedSave ok)) DeferredFire) = []"
    "STORAGE_KEY (sessionStorage (step (step g (UnsavedSave ok)) DeferredFire)) = None"
    using df [of "step g (UnsavedSave ok)"] sv(2) by simp_all
  have emp: "content (step s ClickNew) = []" "showWelcome (step s ClickNew)" "isSaved (step s ClickNew)"
    "STORAGE_KEY (sessionStorage (step s ClickNew)) = None"
    "currentFilename (settings (step s ClickNew)) = js ''document.txt''"
    "showUnsavedDialog (step s ClickNew) = showUnsavedDialog s"
    "pendingAction (step s ClickNew) = pendingAction s"
    if "content s = []"
    using that by (simp_all add: step_def handleNew_def)
  have hot: "step s (KeyDown e ok) = step s ClickNew"
    if "key e \<noteq> ''Tab''" "cmdOrCtrl e" "toLowerCase (key e) = ''n''"
    using that by (simp add: step_def handleKeyDown_def)
  have op: "showUnsavedDialog (step s (FileSelect fo)) = showUnsavedDialog s"
    "pendingAction (step s (FileSelect fo)) = pendingAction s"
    "showUnsavedDialog (step s (Drop files)) = showUnsavedDialog s"
    "pendingAction (step s (Drop files)) = pendingAction s"
    "showUnsavedDialog (step s (ReaderDone n acc)) = showUnsavedDialog s"
    "pendingAction (step s (ReaderDone n acc)) = pendingAction s"
    by (simp_all add: step_def handleFileSelect_def handleDrop_def readFile_def reader_done_def
          reader_onload_def reader_onerror_def Let_def split: option.splits)
  have gd: "g = s\<lparr>pendingAction := Some ResetDocument, showUnsavedDialog := True\<rparr>"
    by (simp add: g_def)
  show ?thesis
    using ask dis dont sv sv2 emp hot op gd by simp
qed

text \<open>
  The theorem at the document into which \<open>a\<close> was typed, and at the emptied
  document, which is dirty.
\<close>

theorem new_asks_before_reset_witness:
  "\<not> isSaved typed_a \<and> content typed_a \<noteq> []
   \<and> step typed_a ClickNew = typed_a\<lparr>pendingAction := Some ResetDocument, showUnsavedDialog := True\<rparr>
   \<and> content (step typed_a ClickNew) = js ''a''
   \<and> content (step (step typed_a ClickNew) UnsavedDontSave) = []
   \<and> content (step (step typed_a ClickNew) (UnsavedSave True)) = js ''a''
   \<and> content (step (step (step typed_a ClickNew) (UnsavedSave True)) DeferredFire) = []
   \<and> content emptied = [] \<and> \<not> isSaved emptied
   \<and> isSaved (step emptied ClickNew) \<and> \<not> showUnsavedDialog (step emptied ClickNew)
   \<and> step typed_a (KeyDown ctrl_n True) = step typed_a ClickNew
   \<and> \<not> showUnsavedDialog (step typed_a (FileSelect (Some notes_md)))"
proof -
  have h: "\<not> isSaved typed_a" "content typed_a \<noteq> []" "content typed_a = js ''a''"
    "\<not> showUnsavedDialog typed_a"
    by (simp_all add: typed_a_def model_defs)
  have k: "key ctrl_n \<noteq> ''Tab''" "cmdOrCtrl ctrl_n" "toLowerCase (key ctrl_n) = ''n''"
    by (simp_all add: ctrl_n_def toLowerCase_def)
  have e: "content emptied = []" "\<not> isSaved emptied" "\<not> showUnsavedDialog emptied"
    by (simp_all add: emptied_def model_defs)
  note a = new_asks_before_reset [where s = typed_a and ok = True and e = ctrl_n
      and fo = "Some notes_md"]
  note b = new_asks_before_reset [where s = emptied]
  from a h k have a1: "step typed_a ClickNew
        = typed_a\<lparr>pendingAction := Some ResetDocument, showUnsavedDialog := True\<rparr>"
    and a2: "content (step (step typed_a ClickNew) UnsavedDontSave) = []"
    and a3: "content (step (step typed_a ClickNew) (UnsavedSave True)) = content typed_a"
    and a4: "content (step (step (step typed_a ClickNew) (UnsavedSave True)) DeferredFire) = []"
    and a5: "step typed_a (KeyDown ctrl_n True) = step typed_a ClickNew"
    and a6: "showUnsavedDialog (step typed_a (FileSelect (Some notes_md))) = showUnsavedDialog typed_a"
    by blast+
  from b e have b1: "isSaved (step emptied ClickNew)"
    and b2: "showUnsavedDialog (step emptied ClickNew) = showUnsavedDialog emptied"
    by blast+
  have a0: "content (step typed_a ClickNew) = js ''a''"
    unfolding a1 using h by simp
  show ?thesis
    using h e a1 a2 a3 a4 a5 a6 b1 b2 a0 by (simp only:) simp
qed

subsection \<open>The dirty flag\<close>

text \<open>
  C4 holds for \<open>handleChange\<close>, which sets \<open>isSaved\<close> to false, but not for the
  Tab key, whose branch of \<open>handleKeyDown\<close> sets the content and leaves \<open>isSaved\<close>
  alone. After \<open>a\<close> is typed and autosaved, Tab makes the text \<open>a\<close> and two blanks;
  the document still counts as saved, no timeout is armed, and the store keeps \<open>a\<close>.
\<close>

theorem tab_after_save_stays_clean:
  "content (exec fresh [Ev (Change (js ''a'') 1), Wait 3000 True, Ev (KeyDown tab_key True)]) = js ''a  ''
   \<and> isSaved (exec fresh [Ev (Change (js ''a'') 1), Wait 3000 True, Ev (KeyDown tab_key True)])
   \<and> timeouts (exec fresh [Ev (Change (js ''a'') 1), Wait 3000 True, Ev (KeyDown tab_key True)]) = []
   \<and> STORAGE_KEY (sessionStorage
        (exec fresh [Ev (Change (js ''a'') 1), Wait 3000 True, Ev (KeyDown tab_key True)]))
        = Some (js ''a'')"
  by (simp add: run_defs tab_key_def handleKeyDown_def)

text \<open>
  C5, as the claim states it, fails: after \<open>a\<close> is autosaved, \<open>ab\<close> typed and
  Save-As completed, the dirty flag is false while the store still holds \<open>a\<close>.
\<close>

theorem save_as_counterexample:
  "isSaved (exec fresh [Ev (Change (js ''a'') 1), Wait 3000 True, Ev (Change (js ''ab'') 2),
                        Ev ClickSaveAs, Ev ClickDownload])
   \<and> content (exec fresh [Ev (Change (js ''a'') 1), Wait 3000 True, Ev (Change (js ''ab'') 2),
                        Ev ClickSaveAs, Ev ClickDownload]) = js ''ab''
   \<and> STORAGE_KEY (sessionStorage (exec fresh [Ev (Change (js ''a'') 1), Wait 3000 True,
                        Ev (Change (js ''ab'') 2), Ev ClickSaveAs, Ev ClickDownload])) = Some (js ''a'')"
  by (simp add: run_defs handleSaveAs_def downloadFile_def)

text \<open>
  C5, amended. A save that goes through (by the hotkey or by a timeout that fires) and
  a completed Open whose write the store accepts set the dirty flag to false and leave
  the text in the store equal to the current text. Save-As sets the dirty flag to false and the filename to the one
  entered, and leaves the text and the content key of the store as they were. A change
  of the textarea sets the dirty flag to true.
\<close>

theorem clean_flag_and_snapshot:
  "(autoSaveEnabled s \<and> content s \<noteq> [] \<and> blob_size (content s) \<le> MAX_FILE_SIZE \<longrightarrow>
      isSaved (step s (KeyDown ctrl_s True))
      \<and> STORAGE_KEY (sessionStorage (step s (KeyDown ctrl_s True)))
          = Some (content (step s (KeyDown ctrl_s True)))
      \<and> isSaved (fire True tm s)
      \<and> STORAGE_KEY (sessionStorage (fire True tm s)) = Some (content (fire True tm s)))
   \<and> (n < length (readers s) \<and> file_text (readers s ! n) = Some text \<longrightarrow>
      isSaved (step s (ReaderDone n True))
      \<and> STORAGE_KEY (sessionStorage (step s (ReaderDone n True)))
          = Some (content (step s (ReaderDone n True))))
   \<and> isSaved (step s ClickDownload)
   \<and> content (step s ClickDownload) = content s
   \<and> STORAGE_KEY (sessionStorage (step s ClickDownload)) = STORAGE_KEY (sessionStorage s)
   \<and> currentFilename (settings (step s ClickDownload)) = saveFilename s
   \<and> \<not> isSaved (step s (Change v sel))"
proof -
  have a: "isSaved (autoSave True r) \<and> STORAGE_KEY (sessionStorage (autoSave True r)) = Some (content r)"
    if "autoSaveEnabled r" "content r \<noteq> []" "blob_size (content r) \<le> MAX_FILE_SIZE" for r
    using that by (simp add: autoSave_def)
  have k: "step s (KeyDown ctrl_s True) = effects s (autoSave True s)"
    by (simp add: step_def handleKeyDown_def ctrl_s_def toLowerCase_def)
  have f: "isSaved (fire True tm s)"
    "STORAGE_KEY (sessionStorage (fire True tm s)) = Some (content (fire True tm s))"
    if "autoSaveEnabled s" "content s \<noteq> []" "blob_size (content s) \<le> MAX_FILE_SIZE"
    using that a [of "s\<lparr>timeouts := filter (\<lambda>(j, d). j \<noteq> fst tm) (timeouts s),
                 clock := max (clock s) (snd tm)\<rparr>"]
    by (simp_all add: fire_def Let_def)
  have r: "isSaved (step s (ReaderDone n True))"
    "STORAGE_KEY (sessionStorage (step s (ReaderDone n True)))
       = Some (content (step s (ReaderDone n True)))"
    if "n < length (readers s)" "file_text (readers s ! n) = Some text"
    using that by (simp_all add: step_def reader_done_def reader_onload_def Let_def)
  have d: "isSaved (step s ClickDownload)" "content (step s ClickDownload) = content s"
    "STORAGE_KEY (sessionStorage (step s ClickDownload)) = STORAGE_KEY (sessionStorage s)"
    "currentFilename (settings (step s ClickDownload)) = saveFilename s"
    by (simp_all add: step_def downloadFile_def)
  have c: "\<not> isSaved (step s (Change v sel))"
    by (simp add: step_def handleChange_def Let_def)
  show ?thesis
    using a [of s] f r d c by (simp add: k)
qed

text \<open>The theorem at the document into which \<open>a\<close> was typed.\<close>

theorem clean_flag_and_snapshot_witness:
  "autoSaveEnabled typed_a \<and> content typed_a \<noteq> [] \<and> blob_size (content typed_a) \<le> MAX_FILE_SIZE
   \<and> isSaved (step typed_a (KeyDown ctrl_s True))
   \<and> STORAGE_KEY (sessionStorage (step typed_a (KeyDown ctrl_s True))) = Some (js ''a'')
   \<and> isSaved (fire True (1, 3000) typed_a)
   \<and> isSaved (step typed_a ClickDownload)
   \<and> STORAGE_KEY (sessionStorage (step typed_a ClickDownload)) = None
   \<and> content (step typed_a ClickDownload) = js ''a''
   \<and> \<not> isSaved (step typed_a (Change (js ''ab'') 2))"
proof -
  have h: "autoSaveEnabled typed_a" "content typed_a \<noteq> []"
    "blob_size (content typed_a) \<le> MAX_FILE_SIZE" "content typed_a = js ''a''"
    "STORAGE_KEY (sessionStorage typed_a) = None"
    using typed_a_facts by (simp_all add: unit_size_def MAX_FILE_SIZE_def js_def)
  note t = clean_flag_and_snapshot [where s = typed_a and tm = "(1, 3000)" and v = "js ''ab''"
      and sel = 2]
  from t h have a: "isSaved (step typed_a (KeyDown ctrl_s True))"
    and b: "STORAGE_KEY (sessionStorage (step typed_a (KeyDown ctrl_s True)))
          = Some (content (step typed_a (KeyDown ctrl_s True)))"
    and c: "isSaved (fire True (1, 3000) typed_a)"
    and d: "isSaved (step typed_a ClickDownload)"
    and e: "STORAGE_KEY (sessionStorage (step typed_a ClickDownload)) = STORAGE_KEY (sessionStorage typed_a)"
    and f: "content (step typed_a ClickDownload) = content typed_a"
    and g: "\<not> isSaved (step typed_a (Change (js ''ab'') 2))"
    by blast+
  have b': "content (step typed_a (KeyDown ctrl_s True)) = js ''a''"
    using h by (simp add: step_def handleKeyDown_def ctrl_s_def toLowerCase_def)
  show ?thesis
    using h a b c d e f g b' by (simp only:) simp
qed

subsection \<open>Settings\<close>

text \<open>
  C9. In every state of a run that starts in a fresh tab and whose slider events carry
  values a slider emits, the font size lies in 12..24 and both margins lie in 0..200
  and are multiples of 4. Reloads are part of the run: the store always holds the JSON
  of the current settings, so the settings that a page load reads back from the store
  are the settings before the reload.
\<close>

theorem settings_stay_in_range:
  "list_all input_ok run \<Longrightarrow>
     settings_ok (settings (exec fresh run))
     \<and> SETTINGS_KEY (sessionStorage (exec fresh run)) = Some (stringify (settings (exec fresh run)))
     \<and> settings (exec fresh (run @ [Ev (Reload u)])) = settings (exec fresh run)"
proof -
  assume "list_all input_ok run"
  with mirrored_fresh have m: "mirrored (exec fresh run)"
    by (rule mirrored_exec)
  from m reload_settings [OF m, of u] show ?thesis
    by (simp add: mirrored_def exec_append)
qed

text \<open>
  The theorem for a run that moves the three sliders to an end of their ranges and then
  reloads the page.
\<close>

theorem settings_stay_in_range_witness:
  "list_all input_ok [Ev (FontSizeChange 24), Ev (LeftMarginChange 200), Ev (RightMarginChange 0),
      Ev (Reload True)]
   \<and> settings_ok (settings (exec fresh [Ev (FontSizeChange 24), Ev (LeftMarginChange 200),
        Ev (RightMarginChange 0), Ev (Reload True)]))
   \<and> fontSize (settings (exec fresh [Ev (FontSizeChange 24), Ev (LeftMarginChange 200),
        Ev (RightMarginChange 0), Ev (Reload True)])) = 24
   \<and> settings (exec fresh ([Ev (FontSizeChange 24), Ev (LeftMarginChange 200),
        Ev (RightMarginChange 0), Ev (Reload True)] @ [Ev (Reload False)]))
       = settings (exec fresh [Ev (FontSizeChange 24), Ev (LeftMarginChange 200),
        Ev (RightMarginChange 0), Ev (Reload True)])"
proof -
  have h: "list_all input_ok [Ev (FontSizeChange 24), Ev (LeftMarginChange 200),
      Ev (RightMarginChange 0), Ev (Reload True)]"
    by (simp add: slider_emits_def)
  have f: "fontSize (settings (exec fresh [Ev (FontSizeChange 24), Ev (LeftMarginChange 200),
        Ev (RightMarginChange 0), Ev (Reload True)])) = 24"
    by (simp add: model_defs onFontSizeChange_def onLeftMarginChange_def onRightMarginChange_def
          spread_def)
  from settings_stay_in_range [OF h, of False] h f show ?thesis
    by (simp only:)
qed

end
